theory Spec2Isabelle
  imports Main "HOL-Library.Word"
begin

unbundle bit_operations_syntax

section \<open>Machine integers, byte slices and run-time panics\<close>

type_synonym u8 = "8 word"
type_synonym u16 = "16 word"
type_synonym u32 = "32 word"

text \<open>
  A Go run-time panic is a value of this type. A function of the source that can panic
  returns \<open>error + 'a\<close> with \<open>Inl\<close> the panic. A loop of the source that may run
  forever is a \<^theory_text>\<open>partial_function\<close> in the option monad, where \<open>None\<close> is
  "does not return".
\<close>

datatype error =
    IndexOutOfRange
  | SliceOutOfRange
  | DivideByZero
  | NilMapAssignment
  | NilDereference
  | NegativeLength
  | IVLengthMismatch

section \<open>arithmetic.go: the range coder\<close>

text \<open>\<open>sum\<close>: the loop adds in \<open>uint32\<close>, so the sum wraps around.\<close>

fun sum_u32 :: "u32 list \<Rightarrow> u32 \<Rightarrow> u32" where
  "sum_u32 [] accum = accum"
| "sum_u32 (item # items) accum = sum_u32 items (accum + item)"

text \<open>
  \<open>scale\<close>: integer division of every item, with 0 replaced by 1. Go panics on an
  integer division by zero when the division is executed, that is when there is an item.
\<close>

definition scale :: "u32 list \<Rightarrow> u32 \<Rightarrow> error + u32 list" where
  "scale items divisor =
     (if divisor = 0 \<and> items \<noteq> [] then Inl DivideByZero
      else Inr (map (\<lambda>item. let scaled = item div divisor in
                              if scaled = 0 then 1 else scaled) items))"

record Interval =
  symbol :: u8
  i_low :: u32
  i_length :: u32
  i_high :: u32

definition makeInterval :: "u8 \<Rightarrow> u32 \<Rightarrow> u32 \<Rightarrow> Interval" where
  "makeInterval s l len = \<lparr>symbol = s, i_low = l, i_length = len, i_high = l + len\<rparr>"

definition CODE_BITS :: nat where "CODE_BITS = 32"
definition TOP_VALUE :: u32 where "TOP_VALUE = 2147483648"
definition MAX_INT :: u32 where "MAX_INT = 4294967295"
definition SHIFT_BITS :: nat where "SHIFT_BITS = CODE_BITS - 9"
definition EXTRA_BITS :: nat where "EXTRA_BITS = (CODE_BITS - 2) mod 8 + 1"
definition BOTTOM_VALUE :: u32 where "BOTTOM_VALUE = drop_bit 8 TOP_VALUE"

record Coder =
  probabilities :: "u32 list"
  low :: u32
  high :: u32
  underflow :: u32
  working :: u32
  intervals :: "u8 \<rightharpoonup> Interval"
  total :: u32
  input_buf :: "u32 list"
  output_buf :: "u32 list"

text \<open>Reading a Go map at a key it does not hold gives the zero value of the element type.\<close>

definition interval_at :: "(u8 \<rightharpoonup> Interval) \<Rightarrow> u8 \<Rightarrow> Interval" where
  "interval_at m s =
     (case m s of None \<Rightarrow> \<lparr>symbol = 0, i_low = 0, i_length = 0, i_high = 0\<rparr> | Some i \<Rightarrow> i)"

fun max_u32 :: "u32 list \<Rightarrow> u32 \<Rightarrow> u32" where
  "max_u32 [] t = t"
| "max_u32 (item # items) t = max_u32 items (if item > t then item else t)"

definition MAX_PROB :: u32 where "MAX_PROB = 255"
definition SCALER :: u32 where "SCALER = 256"
definition MAX_SUM :: u32 where "MAX_SUM = 16384"

text \<open>
  The second loop of \<open>adjustProbs\<close>: \<open>for sum(probs) >= MAX_SUM { probs = scale(probs, 2) }\<close>.
  It does not return on a list of 16384 ones, say.
\<close>

partial_function (option) adjustProbs_halve :: "u32 list \<Rightarrow> (error + u32 list) option" where
  "adjustProbs_halve probs =
     (if sum_u32 probs 0 \<ge> MAX_SUM
      then (case scale probs 2 of Inl e \<Rightarrow> Some (Inl e) | Inr probs' \<Rightarrow> adjustProbs_halve probs')
      else Some (Inr probs))"

declare adjustProbs_halve.simps [code]

definition adjustProbs :: "u32 list \<Rightarrow> (error + u32 list) option" where
  "adjustProbs probs =
     (let highestProb = max_u32 probs 0 in
      if highestProb > MAX_PROB
      then (case scale probs (highestProb div SCALER) of
              Inl e \<Rightarrow> Some (Inl e)
            | Inr probs' \<Rightarrow> adjustProbs_halve probs')
      else adjustProbs_halve probs)"

text \<open>
  The symbol table loop of \<open>NewCoder\<close>. It ranges over the frequencies as given, not
  over the adjusted ones, and the key is \<open>uint8(index)\<close>.
\<close>

fun build_intervals :: "u32 list \<Rightarrow> nat \<Rightarrow> u32 \<Rightarrow> (u8 \<rightharpoonup> Interval) \<Rightarrow> (u8 \<rightharpoonup> Interval)" where
  "build_intervals [] index l m = m"
| "build_intervals (prob # probs) index l m =
     build_intervals probs (index + 1) (l + prob)
       (m(of_nat index \<mapsto> makeInterval (of_nat index) l prob))"

definition NewCoder :: "u32 list \<Rightarrow> (error + Coder) option" where
  "NewCoder probs =
     (case adjustProbs probs of
        None \<Rightarrow> None
      | Some (Inl e) \<Rightarrow> Some (Inl e)
      | Some (Inr adjusted) \<Rightarrow>
          Some (Inr \<lparr>probabilities = adjusted, low = 0, high = 0xFFFFFFFF, underflow = 0,
                     working = 0, intervals = build_intervals probs 0 0 Map.empty,
                     total = sum_u32 adjusted 0, input_buf = [], output_buf = []\<rparr>))"

definition NewEncoder :: "u32 list \<Rightarrow> (error + Coder) option" where
  "NewEncoder probs = NewCoder probs"

definition NewDecoder :: "u32 list \<Rightarrow> (error + Coder) option" where
  "NewDecoder probs = NewCoder probs"

subsection \<open>Encoder\<close>

definition Encoder_init :: "Coder \<Rightarrow> Coder" where
  "Encoder_init this =
     this\<lparr>low := 0, high := TOP_VALUE, working := 0xCA, underflow := 0, input_buf := [], output_buf := []\<rparr>"

definition Encoder_write :: "Coder \<Rightarrow> u32 \<Rightarrow> Coder" where
  "Encoder_write this b = this\<lparr>output_buf := output_buf this @ [b]\<rparr>"

text \<open>\<open>for this.underflow != 0 { this.underflow = this.underflow - 1; this.write(b) }\<close>\<close>

function write_underflow :: "Coder \<Rightarrow> u32 \<Rightarrow> Coder" where
  "write_underflow this b =
     (if underflow this \<noteq> 0
      then write_underflow (Encoder_write (this\<lparr>underflow := underflow this - 1\<rparr>) b) b
      else this)"
  by pat_completeness auto
termination
  by (relation "measure (\<lambda>(this, b). unat (underflow this))")
     (auto simp: Encoder_write_def unat_minus_one unat_gt_0)

declare write_underflow.simps [simp del]

definition Encoder_renormalize_step :: "Coder \<Rightarrow> Coder" where
  "Encoder_renormalize_step this =
     (let this1 =
        (if low this < push_bit SHIFT_BITS 0xFF then
           (let t = write_underflow (Encoder_write this (working this)) 0xFF
            in t\<lparr>working := drop_bit SHIFT_BITS (low t) AND 0xFF\<rparr>)
         else if low this AND TOP_VALUE \<noteq> 0 then
           (let t = write_underflow (Encoder_write this (working this + 1)) 0x00
            in t\<lparr>working := drop_bit SHIFT_BITS (low t) AND 0xFF\<rparr>)
         else this\<lparr>underflow := underflow this + 1\<rparr>)
      in this1\<lparr>high := push_bit 8 (high this1),
               low := push_bit 8 (low this1) AND (TOP_VALUE - 1)\<rparr>)"

text \<open>\<open>for this.high <= BOTTOM_VALUE { ... }\<close>: with \<open>high = 0\<close> the loop never ends.\<close>

partial_function (option) Encoder_renormalize :: "Coder \<Rightarrow> Coder option" where
  "Encoder_renormalize this =
     (if high this \<le> BOTTOM_VALUE then Encoder_renormalize (Encoder_renormalize_step this)
      else Some this)"

declare Encoder_renormalize.simps [code]

definition encodeSymbol :: "Coder \<Rightarrow> u8 \<Rightarrow> (error + Coder) option" where
  "encodeSymbol this0 s =
     (let interval = interval_at (intervals this0) s in
      case Encoder_renormalize this0 of
        None \<Rightarrow> None
      | Some this \<Rightarrow>
          if total this = 0 then Some (Inl DivideByZero)
          else
            let newRange = high this div total this;
                temp = newRange * i_low interval;
                this1 = (if i_high interval \<ge> total this
                         then this\<lparr>high := high this - temp\<rparr>
                         else this\<lparr>high := newRange * i_length interval\<rparr>)
            in Some (Inr (this1\<lparr>low := low this1 + temp\<rparr>)))"

fun encodeSymbols :: "Coder \<Rightarrow> u8 list \<Rightarrow> (error + Coder) option" where
  "encodeSymbols this [] = Some (Inr this)"
| "encodeSymbols this (b # bs) =
     (case encodeSymbol this b of
        None \<Rightarrow> None
      | Some (Inl e) \<Rightarrow> Some (Inl e)
      | Some (Inr this') \<Rightarrow> encodeSymbols this' bs)"

definition Encoder_flush :: "Coder \<Rightarrow> Coder option" where
  "Encoder_flush this0 =
     (case Encoder_renormalize this0 of
        None \<Rightarrow> None
      | Some this \<Rightarrow>
          let temp = drop_bit SHIFT_BITS (low this);
              this1 = (if temp > 0xFF
                       then write_underflow (Encoder_write this (working this + 1)) 0x00
                       else write_underflow (Encoder_write this (working this)) 0xFF);
              this2 = Encoder_write this1 (temp AND 0xFF);
              this3 = Encoder_write this2 (drop_bit (23 - 8) (low this2) AND 0xFF);
              this4 = Encoder_write this3 (drop_bit 8 (of_nat (length (output_buf this3))) AND 0xFF);
              this5 = Encoder_write this4 (of_nat (length (output_buf this4)) AND 0xFF)
          in Some this5)"

text \<open>\<open>Encode\<close> returns the bytes and the encoder as the call leaves it.\<close>

definition Encode :: "Coder \<Rightarrow> u8 list \<Rightarrow> (error + u8 list \<times> Coder) option" where
  "Encode this inp =
     (case encodeSymbols (Encoder_init this) inp of
        None \<Rightarrow> None
      | Some (Inl e) \<Rightarrow> Some (Inl e)
      | Some (Inr this1) \<Rightarrow>
          (case Encoder_flush this1 of
             None \<Rightarrow> None
           | Some this2 \<Rightarrow> Some (Inr (map ucast (output_buf this2), this2))))"

subsection \<open>Decoder\<close>

text \<open>
  \<open>decodeShort\<close> (encryptionShaper.go) reads a \<open>uint16\<close> with \<open>binary.LittleEndian\<close>:
  the first byte is the low one. On fewer than two bytes \<open>binary.Read\<close> fails, the
  failure is printed and the value stays 0.
\<close>

fun decodeShort :: "u8 list \<Rightarrow> u16" where
  "decodeShort (b0 # b1 # bs) = ucast b0 OR push_bit 8 (ucast b1)"
| "decodeShort bs = 0"

text \<open>
  \<open>for index := uint16(0); index < size; index++ { this.input = append(this.input,
  uint32(input[index])) }\<close>: the index expression panics beyond the length of \<open>input\<close>.
\<close>

function copy_input :: "u8 list \<Rightarrow> u16 \<Rightarrow> u16 \<Rightarrow> u32 list \<Rightarrow> error + u32 list" where
  "copy_input inp index sz q =
     (if index < sz
      then (if unat index < length inp
            then copy_input inp (index + 1) sz (q @ [ucast (inp ! unat index)])
            else Inl IndexOutOfRange)
      else Inr q)"
  by pat_completeness auto
termination
proof (relation "measure (\<lambda>(inp, index, sz, q). unat sz - unat index)")
  show "wf (measure (\<lambda>(inp, index, sz, q). unat sz - unat index))"
    by simp
next
  fix inp :: "u8 list" and index sz :: u16 and q :: "u32 list"
  assume lt: "index < sz"
  then have lt': "unat index < unat sz"
    by (simp add: word_less_nat_alt)
  have "unat sz < 2 ^ LENGTH(16)"
    by (rule unsigned_less)
  with lt' have "unat index + unat (1 :: u16) < 2 ^ LENGTH(16)"
    by simp
  then have "unat (index + 1) = unat index + unat (1 :: u16)"
    by (simp only: unat_add_lem)
  moreover note lt'
  ultimately show "((inp, index + 1, sz, q @ [ucast (inp ! unat index)]), (inp, index, sz, q))
      \<in> measure (\<lambda>(inp, index, sz, q). unat sz - unat index)"
    by simp
qed

declare copy_input.simps [simp del]

definition Decoder_init :: "Coder \<Rightarrow> error + Coder" where
  "Decoder_init this =
     (case input_buf this of
        [] \<Rightarrow> Inl SliceOutOfRange
      | discarded # rest \<Rightarrow>
          (case rest of
             [] \<Rightarrow> Inl IndexOutOfRange
           | w # rest' \<Rightarrow>
               Inr (this\<lparr>working := w, input_buf := rest',
                         low := drop_bit (8 - EXTRA_BITS) w,
                         high := push_bit EXTRA_BITS 1,
                         underflow := 0, output_buf := []\<rparr>)))"

definition Decoder_renormalize_step :: "Coder \<Rightarrow> Coder" where
  "Decoder_renormalize_step this =
     (let this1 = this\<lparr>high := push_bit 8 (high this)\<rparr>;
          this2 = this1\<lparr>low := push_bit 8 (low this1) OR
                                 (push_bit EXTRA_BITS (working this1) AND 0xFF)\<rparr>;
          this3 = (case input_buf this2 of
                     [] \<Rightarrow> this2\<lparr>working := 0\<rparr>
                   | w # rest \<Rightarrow> this2\<lparr>working := w, input_buf := rest\<rparr>)
      in this3\<lparr>low := low this3 OR drop_bit (8 - EXTRA_BITS) (working this3)\<rparr>)"

text \<open>\<open>for this.high <= BOTTOM_VALUE { ... }\<close>: with \<open>high = 0\<close> the loop never ends.\<close>

partial_function (option) Decoder_renormalize :: "Coder \<Rightarrow> Coder option" where
  "Decoder_renormalize this =
     (if high this \<le> BOTTOM_VALUE then Decoder_renormalize (Decoder_renormalize_step this)
      else Some this)"

declare Decoder_renormalize.simps [code]

definition Decoder_update :: "Coder \<Rightarrow> u32 \<Rightarrow> Coder" where
  "Decoder_update this s =
     (let interval = interval_at (intervals this) (ucast s);
          temp = underflow this * i_low interval;
          this1 = this\<lparr>low := low this - temp\<rparr>
      in if i_high interval \<ge> total this1
         then this1\<lparr>high := high this1 - temp\<rparr>
         else this1\<lparr>high := underflow this1 * i_length interval\<rparr>)"

definition decodeSymbol :: "Coder \<Rightarrow> (error + Coder) option" where
  "decodeSymbol this0 =
     (case Decoder_renormalize this0 of
        None \<Rightarrow> None
      | Some this1 \<Rightarrow>
          let this = this1\<lparr>underflow := drop_bit 8 (high this1)\<rparr> in
          if underflow this = 0 then Some (Inl DivideByZero)
          else
            let temp = low this div underflow this;
                result = (if drop_bit 8 temp \<noteq> 0 then 255 else temp);
                this2 = this\<lparr>output_buf := output_buf this @ [result]\<rparr>
            in Some (Inr (Decoder_update this2 result)))"

text \<open>
  \<open>for len(this.input) > 0 { this.decodeSymbol() }\<close>: a symbol is decoded without
  reading input while the range is wide, so the loop is not bounded by the input.
\<close>

partial_function (option) decodeSymbols :: "Coder \<Rightarrow> (error + Coder) option" where
  "decodeSymbols this =
     (if length (input_buf this) > 0
      then (case decodeSymbol this of
              None \<Rightarrow> None
            | Some (Inl e) \<Rightarrow> Some (Inl e)
            | Some (Inr this') \<Rightarrow> decodeSymbols this')
      else Some (Inr this))"

declare decodeSymbols.simps [code]

definition Decoder_flush :: "Coder \<Rightarrow> (error + Coder) option" where
  "Decoder_flush this =
     (case decodeSymbol this of
        None \<Rightarrow> None
      | Some (Inl e) \<Rightarrow> Some (Inl e)
      | Some (Inr this1) \<Rightarrow> map_option Inr (Decoder_renormalize this1))"

text \<open>\<open>Decode\<close> returns the bytes and the decoder as the call leaves it.\<close>

definition Decode :: "Coder \<Rightarrow> u8 list \<Rightarrow> (error + u8 list \<times> Coder) option" where
  "Decode this inp =
     (if length inp < 2 then Some (Inl SliceOutOfRange)
      else
        let sizeBytes = drop (length inp - 2) inp;
            sz = decodeShort sizeBytes - 4
        in case copy_input inp 0 sz [] of
             Inl e \<Rightarrow> Some (Inl e)
           | Inr q \<Rightarrow>
               (case Decoder_init (this\<lparr>input_buf := q\<rparr>) of
                  Inl e \<Rightarrow> Some (Inl e)
                | Inr this1 \<Rightarrow>
                    (case decodeSymbols this1 of
                       None \<Rightarrow> None
                     | Some (Inl e) \<Rightarrow> Some (Inl e)
                     | Some (Inr this2) \<Rightarrow>
                         (case Decoder_flush this2 of
                            None \<Rightarrow> None
                          | Some (Inl e) \<Rightarrow> Some (Inl e)
                          | Some (Inr this3) \<Rightarrow>
                              Some (Inr (map ucast (output_buf this3), this3))))))"

text \<open>\<open>sampleDecompressionConfig().Frequencies\<close> (decompressionShaper.go): 256 ones.\<close>

definition sampleFrequencies :: "u32 list" where
  "sampleFrequencies = replicate 256 1"

text \<open>
  The two steps of the tests in arithmetic\_test.go: build the coder from a frequency
  table, then run it on a byte sequence; the bytes returned are kept.
\<close>

definition NewEncoder_Encode :: "u32 list \<Rightarrow> u8 list \<Rightarrow> (error + u8 list) option" where
  "NewEncoder_Encode frequencies plain =
     (case NewEncoder frequencies of
        None \<Rightarrow> None
      | Some (Inl e) \<Rightarrow> Some (Inl e)
      | Some (Inr encoder) \<Rightarrow> map_option (map_sum id fst) (Encode encoder plain))"

definition NewDecoder_Decode :: "u32 list \<Rightarrow> u8 list \<Rightarrow> (error + u8 list) option" where
  "NewDecoder_Decode frequencies encoded =
     (case NewDecoder frequencies of
        None \<Rightarrow> None
      | Some (Inl e) \<Rightarrow> Some (Inl e)
      | Some (Inr decoder) \<Rightarrow> map_option (map_sum id fst) (Decode decoder encoded))"

section \<open>Randomness and the byte codecs shared by the shapers\<close>

text \<open>
  \<open>crypto/rand\<close> is an input of the model: a stream of bytes, of which \<open>rand.Read\<close>
  takes the first \<open>n\<close> and leaves the rest. A property that holds for every stream holds
  for every choice of the random bytes.
\<close>

type_synonym rand = "nat \<Rightarrow> u8"

definition rand_Read :: "nat \<Rightarrow> rand \<Rightarrow> u8 list \<times> rand" where
  "rand_Read n r = (map r [0..<n], (\<lambda>i. r (n + i)))"

definition zero_rand :: rand where
  "zero_rand = (\<lambda>i. 0)"

definition CHUNK_SIZE :: nat where "CHUNK_SIZE = 16"
definition IV_SIZE :: nat where "IV_SIZE = 16"

text \<open>\<open>encodeShort\<close> (encryptionShaper.go) writes with \<open>binary.LittleEndian\<close>.\<close>

definition encodeShort :: "u16 \<Rightarrow> u8 list" where
  "encodeShort v = [ucast v, ucast (drop_bit 8 v)]"

definition encodeByte :: "u8 \<Rightarrow> u8 list" where
  "encodeByte b = [b]"

section \<open>The fragment record and its codec\<close>

definition HEADER_SIZE :: nat where "HEADER_SIZE = 2 + 32 + 1 + 1"

record Fragment =
  Length :: u16
  FragmentId :: "u8 list"
  Index :: u8
  Count :: u8
  Payload :: "u8 list"
  Padding :: "u8 list"

definition makeRandomId :: "rand \<Rightarrow> u8 list \<times> rand" where
  "makeRandomId r = rand_Read 32 r"

definition encodeFragment :: "Fragment \<Rightarrow> u8 list" where
  "encodeFragment fragment =
     encodeShort (Length fragment) @ FragmentId fragment @ encodeByte (Index fragment) @
     encodeByte (Count fragment) @ Payload fragment @ Padding fragment"

section \<open>defragmenter.go\<close>

text \<open>
  Go's \<open>time.Duration\<close> is a count of nanoseconds (an \<open>int64\<close>), and the package \<open>time\<close>
  declares the units below. \<open>time.Duration(60 * 1000)\<close> converts the number 60000 to a
  duration as it is.
\<close>

definition Nanosecond :: int where "Nanosecond = 1"
definition Microsecond :: int where "Microsecond = 1000 * Nanosecond"
definition Millisecond :: int where "Millisecond = 1000 * Microsecond"
definition Second :: int where "Second = 1000 * Millisecond"

definition CACHE_EXPIRATION_TIME :: int where
  "CACHE_EXPIRATION_TIME = 60 * 1000"

text \<open>
  A timer armed by \<open>time.AfterFunc(d, func() { this.reap(hexid) })\<close>: the duration and
  the identifier that the callback reaps.
\<close>

record Timer =
  duration :: int
  reaps :: string

definition time_AfterFunc :: "int \<Rightarrow> string \<Rightarrow> Timer" where
  "time_AfterFunc d hexid = \<lparr>duration = d, reaps = hexid\<rparr>"

text \<open>A piece that has not arrived is the nil slice, \<open>None\<close>.\<close>

record PacketTracker =
  Pieces :: "u8 list option list"
  Counter :: u8
  Timer :: Timer

text \<open>
  The tracker is a Go map: \<open>None\<close> is the nil map, which reads as empty and panics on
  assignment.
\<close>

record Defragmenter =
  tracker :: "(string \<rightharpoonup> PacketTracker) option"
  complete :: "u8 list option list list"

text \<open>\<open>hex.EncodeToString\<close>: two lower-case digits per byte.\<close>

definition hextable :: string where
  "hextable = ''0123456789abcdef''"

definition hex_EncodeToString :: "u8 list \<Rightarrow> string" where
  "hex_EncodeToString src =
     concat (map (\<lambda>v. [hextable ! unat (drop_bit 4 v), hextable ! unat (v AND 0x0f)]) src)"

text \<open>
  The branch of \<open>AddFragment\<close> for an identifier that the tracker does not hold. The
  index expression on the fresh list comes first, the timer is armed next, the assignment
  to the map comes last.
\<close>

definition AddFragment_new :: "Defragmenter \<Rightarrow> string \<Rightarrow> Fragment \<Rightarrow> error + Defragmenter" where
  "AddFragment_new this hexid fragment =
     (let fragmentList = replicate (unat (Count fragment)) None in
      if \<not> unat (Index fragment) < length fragmentList then Inl IndexOutOfRange
      else
        let fragmentList' = fragmentList[unat (Index fragment) := Some (Payload fragment)];
            counter = Count fragment - 1
        in if counter = 0
           then Inr (this\<lparr>complete := complete this @ [fragmentList']\<rparr>)
           else
             let timer = time_AfterFunc CACHE_EXPIRATION_TIME hexid in
             case tracker this of
               None \<Rightarrow> Inl NilMapAssignment
             | Some m \<Rightarrow>
                 Inr (this\<lparr>tracker :=
                   Some (m(hexid \<mapsto> \<lparr>Pieces = fragmentList', Counter = counter, Timer = timer\<rparr>))\<rparr>))"

text \<open>The branch for an identifier that the tracker holds, in the map \<open>m\<close>.\<close>

definition AddFragment_tracked ::
  "Defragmenter \<Rightarrow> (string \<rightharpoonup> PacketTracker) \<Rightarrow> string \<Rightarrow> PacketTracker \<Rightarrow> Fragment
     \<Rightarrow> error + Defragmenter" where
  "AddFragment_tracked this m hexid tracked fragment =
     (let fragmentList = Pieces tracked in
      if \<not> unat (Index fragment) < length fragmentList then Inl IndexOutOfRange
      else if fragmentList ! unat (Index fragment) \<noteq> None then Inr this
      else
        let fragmentList' = fragmentList[unat (Index fragment) := Some (Payload fragment)];
            tracked' = tracked\<lparr>Pieces := fragmentList', Counter := Counter tracked - 1\<rparr>;
            m' = m(hexid \<mapsto> tracked')
        in if Counter tracked' = 0
           then Inr (this\<lparr>complete := complete this @ [Pieces tracked'],
                          tracker := Some (m'(hexid := None))\<rparr>)
           else Inr (this\<lparr>tracker := Some m'\<rparr>))"

definition AddFragment :: "Defragmenter \<Rightarrow> Fragment \<Rightarrow> error + Defragmenter" where
  "AddFragment this fragment =
     (let hexid = hex_EncodeToString (FragmentId fragment) in
      case tracker this of
        None \<Rightarrow> AddFragment_new this hexid fragment
      | Some m \<Rightarrow>
          (case m hexid of
             None \<Rightarrow> AddFragment_new this hexid fragment
           | Some tracked \<Rightarrow> AddFragment_tracked this m hexid tracked fragment))"

definition CompleteCount :: "Defragmenter \<Rightarrow> nat" where
  "CompleteCount this = length (complete this)"

text \<open>
  The loop of \<open>GetComplete\<close>, \<open>for i := 0; i < len(this.complete); i++\<close>: the bound is
  read again at every round, after the body has removed the last element.
\<close>

function GetComplete_loop ::
  "nat \<Rightarrow> u8 list option list list \<Rightarrow> u8 list list \<Rightarrow> u8 list list \<times> u8 list option list list" where
  "GetComplete_loop i cs packets =
     (if i < length cs
      then
        let fragmentList = last cs;
            cs' = butlast cs;
            packets' = (if fragmentList \<noteq> []
                        then packets @ [concat (map (case_option [] id) fragmentList)]
                        else packets)
        in GetComplete_loop (i + 1) cs' packets'
      else (packets, cs))"
  by pat_completeness auto
termination
  by (relation "measure (\<lambda>(i, cs, packets). length cs - i)") auto

declare GetComplete_loop.simps [simp del]

definition GetComplete :: "Defragmenter \<Rightarrow> u8 list list \<times> Defragmenter" where
  "GetComplete this =
     (case GetComplete_loop 0 (complete this) [] of
        (packets, cs) \<Rightarrow> (packets, this\<lparr>complete := cs\<rparr>))"

section \<open>fragmentationShaper.go\<close>

record FragmentationConfig =
  MaxLength :: u16

definition sampleFragmentationConfig :: FragmentationConfig where
  "sampleFragmentationConfig = \<lparr>MaxLength = 1440\<rparr>"

record FragmentationShaper =
  maxLength :: u16
  fragmentBuffer :: Defragmenter

text \<open>\<open>&Defragmenter{}\<close> is the zero value: a nil map and a nil list.\<close>

definition FragmentationShaper_ConfigureStruct :: "FragmentationConfig \<Rightarrow> FragmentationShaper" where
  "FragmentationShaper_ConfigureStruct config =
     \<lparr>maxLength = MaxLength config, fragmentBuffer = \<lparr>tracker = None, complete = []\<rparr>\<rparr>"

text \<open>
  \<open>fixFragments\<close>: the identifier of the first fragment, the position and the number of
  fragments, the last two converted to \<open>uint8\<close>.
\<close>

definition fixFragments :: "Fragment list \<Rightarrow> error + Fragment list" where
  "fixFragments fragmentList =
     (case fragmentList of
        [] \<Rightarrow> Inl IndexOutOfRange
      | first # others \<Rightarrow>
          Inr (map (\<lambda>(index, fragment).
                      fragment\<lparr>FragmentId := FragmentId first, Index := of_nat index,
                               Count := of_nat (length fragmentList)\<rparr>)
                   (enumerate 0 fragmentList)))"

text \<open>The local variables of \<open>makeFragments\<close>, of Go's type \<open>int\<close>.\<close>

definition payloadSize :: "u8 list \<Rightarrow> int" where
  "payloadSize buffer = int (length buffer) + int HEADER_SIZE + int IV_SIZE"

definition fillSize :: "u8 list \<Rightarrow> int" where
  "fillSize buffer = int CHUNK_SIZE - payloadSize buffer mod int CHUNK_SIZE"

definition packetSize :: "u8 list \<Rightarrow> int" where
  "packetSize buffer = payloadSize buffer + fillSize buffer"

definition firstLength :: "u16 \<Rightarrow> u8 list \<Rightarrow> int" where
  "firstLength maxLen buffer = uint maxLen - (int HEADER_SIZE + int IV_SIZE + fillSize buffer)"

definition oneFragment :: "u8 list \<Rightarrow> rand \<Rightarrow> Fragment list \<times> rand" where
  "oneFragment buffer r =
     (case (if fillSize buffer > 0 then rand_Read (nat (fillSize buffer)) r
            else (replicate (nat (fillSize buffer)) 0, r)) of
        (fill, r1) \<Rightarrow>
          (case makeRandomId r1 of
             (ident, r2) \<Rightarrow>
               ([\<lparr>Length = of_nat (length buffer), FragmentId = ident, Index = 0, Count = 1,
                   Payload = buffer, Padding = fill\<rparr>], r2)))"

text \<open>
  \<open>makeFragments\<close>. In the branch for several fragments the slice expression
  \<open>buffer[:firstLength]\<close> panics on a negative bound, and both recursive calls are on
  that slice.
\<close>

function makeFragments :: "u16 \<Rightarrow> u8 list \<Rightarrow> rand \<Rightarrow> error + Fragment list \<times> rand" where
  "makeFragments maxLen buffer r =
     (if packetSize buffer \<le> uint maxLen then Inr (oneFragment buffer r)
      else if firstLength maxLen buffer < 0 then Inl SliceOutOfRange
      else
        (case makeFragments maxLen (take (nat (firstLength maxLen buffer)) buffer) r of
           Inl e \<Rightarrow> Inl e
         | Inr (first, r1) \<Rightarrow>
             (case makeFragments maxLen (take (nat (firstLength maxLen buffer)) buffer) r1 of
                Inl e \<Rightarrow> Inl e
              | Inr (rest, r2) \<Rightarrow>
                  (case fixFragments (first @ rest) of
                     Inl e \<Rightarrow> Inl e
                   | Inr fragmentList \<Rightarrow> Inr (fragmentList, r2)))))"
  by pat_completeness auto
termination
proof (relation "measure (\<lambda>(maxLen, buffer, r). length buffer)")
  show "wf (measure (\<lambda>(maxLen, buffer, r). length buffer))"
    by simp
next
  fix maxLen :: u16 and buffer :: "u8 list" and r :: rand
  assume "\<not> packetSize buffer \<le> uint maxLen" and "\<not> firstLength maxLen buffer < 0"
  then have "nat (firstLength maxLen buffer) < length buffer"
    by (simp add: packetSize_def firstLength_def payloadSize_def)
  then show "((maxLen, take (nat (firstLength maxLen buffer)) buffer, r), (maxLen, buffer, r))
      \<in> measure (\<lambda>(maxLen, buffer, r). length buffer)"
    by simp
next
  fix maxLen :: u16 and buffer :: "u8 list" and r r1 :: rand
  assume "\<not> packetSize buffer \<le> uint maxLen" and "\<not> firstLength maxLen buffer < 0"
  then have "nat (firstLength maxLen buffer) < length buffer"
    by (simp add: packetSize_def firstLength_def payloadSize_def)
  then show "((maxLen, take (nat (firstLength maxLen buffer)) buffer, r1), (maxLen, buffer, r))
      \<in> measure (\<lambda>(maxLen, buffer, r). length buffer)"
    by simp
qed

declare makeFragments.simps [simp del]

text \<open>
  The payload that every fragment of \<open>makeFragments\<close> carries: the buffer of the call
  that ends the recursion. It is used to state what the recursion produces.
\<close>

function common_payload :: "u16 \<Rightarrow> u8 list \<Rightarrow> u8 list" where
  "common_payload maxLen buffer =
     (if packetSize buffer \<le> uint maxLen \<or> firstLength maxLen buffer < 0 then buffer
      else common_payload maxLen (take (nat (firstLength maxLen buffer)) buffer))"
  by pat_completeness auto
termination
proof (relation "measure (\<lambda>(maxLen, buffer). length buffer)")
  show "wf (measure (\<lambda>(maxLen, buffer). length buffer))"
    by simp
next
  fix maxLen :: u16 and buffer :: "u8 list"
  assume "\<not> (packetSize buffer \<le> uint maxLen \<or> firstLength maxLen buffer < 0)"
  then have "\<not> packetSize buffer \<le> uint maxLen" and "\<not> firstLength maxLen buffer < 0"
    by simp_all
  then have "nat (firstLength maxLen buffer) < length buffer"
    by (simp add: packetSize_def firstLength_def payloadSize_def)
  then show "((maxLen, take (nat (firstLength maxLen buffer)) buffer), (maxLen, buffer))
      \<in> measure (\<lambda>(maxLen, buffer). length buffer)"
    by simp
qed

declare common_payload.simps [simp del]

text \<open>The concatenation of the payloads of the fragments that a call returns.\<close>

definition concat_payloads :: "error + Fragment list \<times> rand \<Rightarrow> error + u8 list" where
  "concat_payloads res =
     (case res of Inl e \<Rightarrow> Inl e | Inr (fragmentList, r) \<Rightarrow> Inr (concat (map Payload fragmentList)))"

definition FragmentationShaper_Transform ::
  "FragmentationShaper \<Rightarrow> u8 list \<Rightarrow> rand \<Rightarrow> error + u8 list list \<times> rand" where
  "FragmentationShaper_Transform this buffer r =
     (case makeFragments (maxLength this) buffer r of
        Inl e \<Rightarrow> Inl e
      | Inr (fragmentList, r') \<Rightarrow> Inr (map encodeFragment fragmentList, r'))"

section \<open>encryptionShaper.go\<close>

text \<open>
  \<open>crypto/aes\<close> and \<open>crypto/cipher\<close> belong to Go's library, not to the repository.
  The block cipher is a parameter \<open>aes\<close> of the model: for a key it gives the two
  operations of a \<open>cipher.Block\<close> on one block. \<open>aes.NewCipher\<close> fails on a key
  that is not 16, 24 or 32 bytes long. The chaining of \<open>cipher.NewCBCEncrypter\<close> and
  \<open>cipher.NewCBCDecrypter\<close> is written out below.
\<close>

record cipher_Block =
  Encrypt :: "u8 list \<Rightarrow> u8 list"
  Decrypt :: "u8 list \<Rightarrow> u8 list"

definition aes_NewCipher :: "(u8 list \<Rightarrow> cipher_Block) \<Rightarrow> u8 list \<Rightarrow> cipher_Block option" where
  "aes_NewCipher aes k =
     (if length k = 16 \<or> length k = 24 \<or> length k = 32 then Some (aes k) else None)"

definition aes_BlockSize :: nat where "aes_BlockSize = 16"

definition xor_bytes :: "u8 list \<Rightarrow> u8 list \<Rightarrow> u8 list" where
  "xor_bytes a b = map2 (XOR) a b"

record EncryptionShaper =
  key :: "u8 list"

definition makeIV :: "rand \<Rightarrow> u8 list \<times> rand" where
  "makeIV r = rand_Read IV_SIZE r"

text \<open>\<open>buf[x*CHUNK_SIZE : (x+1)*CHUNK_SIZE]\<close>\<close>

definition chunk :: "nat \<Rightarrow> u8 list \<Rightarrow> u8 list" where
  "chunk x buf = take CHUNK_SIZE (drop (x * CHUNK_SIZE) buf)"

text \<open>
  The loop of \<open>encrypt\<close>. \<open>enc.CryptBlocks\<close> on one block encrypts the block xored with
  the chaining value \<open>iv\<close> of the encrypter, and the result is the next chaining value.
\<close>

function encrypt_blocks :: "cipher_Block \<Rightarrow> u8 list \<Rightarrow> u8 list \<Rightarrow> nat \<Rightarrow> u8 list \<Rightarrow> u8 list" where
  "encrypt_blocks block iv plaintext x ciphertext =
     (if x < length plaintext div CHUNK_SIZE
      then encrypt_blocks block (Encrypt block (xor_bytes (chunk x plaintext) iv)) plaintext (x + 1)
             (ciphertext @ Encrypt block (xor_bytes (chunk x plaintext) iv))
      else ciphertext)"
  by pat_completeness auto
termination
  by (relation "measure (\<lambda>(block, iv, plaintext, x, ciphertext). length plaintext div CHUNK_SIZE - x)")
     auto

declare encrypt_blocks.simps [simp del]

text \<open>
  The loop of \<open>decrypt\<close>. \<open>dec.CryptBlocks\<close> on one block decrypts the block and xors
  the result with the chaining value; the block itself is the next chaining value.
\<close>

function decrypt_blocks :: "cipher_Block \<Rightarrow> u8 list \<Rightarrow> u8 list \<Rightarrow> nat \<Rightarrow> u8 list \<Rightarrow> u8 list" where
  "decrypt_blocks block iv ciphertext x plaintext =
     (if x < length ciphertext div CHUNK_SIZE
      then decrypt_blocks block (chunk x ciphertext) ciphertext (x + 1)
             (plaintext @ xor_bytes (Decrypt block (chunk x ciphertext)) iv)
      else plaintext)"
  by pat_completeness auto
termination
  by (relation "measure (\<lambda>(block, iv, ciphertext, x, plaintext). length ciphertext div CHUNK_SIZE - x)")
     auto

declare decrypt_blocks.simps [simp del]

text \<open>
  \<open>encrypt\<close>. The padding is drawn before the cipher is built; with a key that
  \<open>aes.NewCipher\<close> refuses the result is nil, the empty list. \<open>cipher.NewCBCEncrypter\<close>
  panics on an initialisation vector that is not one block long.
\<close>

definition encrypt ::
  "(u8 list \<Rightarrow> cipher_Block) \<Rightarrow> u8 list \<Rightarrow> u8 list \<Rightarrow> u8 list \<Rightarrow> rand \<Rightarrow> error + u8 list \<times> rand" where
  "encrypt aes k iv buffer r =
     (let len = encodeShort (of_nat (length buffer));
          remainder = (length len + length buffer) mod CHUNK_SIZE
      in case (if remainder = 0 then (len @ buffer, r)
               else (case rand_Read (CHUNK_SIZE - remainder) r of
                       (padding, r1) \<Rightarrow> ((len @ buffer) @ padding, r1))) of
           (plaintext, r1) \<Rightarrow>
             (case aes_NewCipher aes k of
                None \<Rightarrow> Inr ([], r1)
              | Some block \<Rightarrow>
                  if length iv \<noteq> aes_BlockSize then Inl IVLengthMismatch
                  else Inr (encrypt_blocks block iv plaintext 0 [], r1)))"

text \<open>
  \<open>decrypt\<close>. The plaintext is built by \<open>append\<close> from nil, so \<open>plaintext[0:2]\<close>
  panics when no block was decrypted.
\<close>

definition decrypt ::
  "(u8 list \<Rightarrow> cipher_Block) \<Rightarrow> u8 list \<Rightarrow> u8 list \<Rightarrow> u8 list \<Rightarrow> error + u8 list" where
  "decrypt aes k iv ciphertext =
     (case aes_NewCipher aes k of
        None \<Rightarrow> Inr []
      | Some block \<Rightarrow>
          if length iv \<noteq> aes_BlockSize then Inl IVLengthMismatch
          else
            let plaintext = decrypt_blocks block iv ciphertext 0 [] in
            if length plaintext < 2 then Inl SliceOutOfRange
            else
              let lengthBytes = take 2 plaintext;
                  len = decodeShort lengthBytes;
                  rest = drop 2 plaintext
              in if length rest > unat len then Inr (take (unat len) rest) else Inr rest)"

definition EncryptionShaper_Transform ::
  "(u8 list \<Rightarrow> cipher_Block) \<Rightarrow> EncryptionShaper \<Rightarrow> u8 list \<Rightarrow> rand \<Rightarrow> error + u8 list list \<times> rand" where
  "EncryptionShaper_Transform aes shaper buffer r =
     (case makeIV r of
        (iv, r1) \<Rightarrow>
          (case encrypt aes (key shaper) iv buffer r1 of
             Inl e \<Rightarrow> Inl e
           | Inr (encrypted, r2) \<Rightarrow> Inr ([iv @ encrypted], r2)))"

text \<open>\<open>buffer[IV_SIZE:]\<close> panics on a buffer shorter than \<open>IV_SIZE\<close>.\<close>

definition EncryptionShaper_Restore ::
  "(u8 list \<Rightarrow> cipher_Block) \<Rightarrow> EncryptionShaper \<Rightarrow> u8 list \<Rightarrow> error + u8 list list" where
  "EncryptionShaper_Restore aes shaper buffer =
     (if length buffer < IV_SIZE then Inl SliceOutOfRange
      else (case decrypt aes (key shaper) (take IV_SIZE buffer) (drop IV_SIZE buffer) of
              Inl e \<Rightarrow> Inl e
            | Inr plain \<Rightarrow> Inr [plain]))"

text \<open>
  What the shaper needs of the \<open>cipher.Block\<close> that \<open>aes.NewCipher\<close> returns, and
  what AES provides: \<open>Encrypt\<close> maps a block of 16 bytes to a block of 16 bytes, and
  \<open>Decrypt\<close> undoes it.
\<close>

definition block_ok :: "cipher_Block \<Rightarrow> bool" where
  "block_ok block \<longleftrightarrow>
     (\<forall>blk. length blk = 16 \<longrightarrow>
        length (Encrypt block blk) = 16 \<and> Decrypt block (Encrypt block blk) = blk)"

text \<open>
  A block cipher to run the model on: the block xored with the key. It is not AES; it
  has the one property of a \<open>cipher.Block\<close> that the shaper relies on.
\<close>

definition xor_cipher :: "u8 list \<Rightarrow> cipher_Block" where
  "xor_cipher k = \<lparr>Encrypt = (\<lambda>blk. xor_bytes blk k), Decrypt = (\<lambda>blk. xor_bytes blk k)\<rparr>"

section \<open>The byte sequence shaper\<close>

text \<open>Go's \<open>int8\<close> and \<open>int16\<close>: words that are read with \<open>sint\<close>.\<close>

type_synonym i8 = "8 word"
type_synonym i16 = "16 word"

record SerializedSequenceModel =
  ser_Index :: i8
  ser_Offset :: i16
  ser_Sequence :: string
  ser_Length :: i16

record SequenceModel =
  seq_Index :: i8
  seq_Offset :: i16
  Sequence :: "u8 list"
  seq_Length :: i16

record SequenceConfig =
  cfg_AddSequences :: "SerializedSequenceModel list"
  cfg_RemoveSequences :: "SerializedSequenceModel list"

text \<open>The lists hold pointers: \<open>None\<close> is the nil pointer.\<close>

record ByteSequenceShaper =
  AddSequences :: "SequenceModel option list"
  RemoveSequences :: "SequenceModel option list"
  FirstIndex :: i8
  LastIndex :: i8
  OutputIndex :: i8

definition ByteSequenceShaper_zero :: ByteSequenceShaper where
  "ByteSequenceShaper_zero =
     \<lparr>AddSequences = [], RemoveSequences = [], FirstIndex = 0, LastIndex = 0, OutputIndex = 0\<rparr>"

text \<open>\<open>hex.DecodeString\<close>: an error on an odd length or on a character that is no hex digit.\<close>

definition fromHexChar :: "char \<Rightarrow> u8 option" where
  "fromHexChar c =
     (let n = (of_char c :: nat) in
      if 48 \<le> n \<and> n \<le> 57 then Some (of_nat (n - 48))
      else if 97 \<le> n \<and> n \<le> 102 then Some (of_nat (n - 97 + 10))
      else if 65 \<le> n \<and> n \<le> 70 then Some (of_nat (n - 65 + 10))
      else None)"

fun hex_DecodeString :: "string \<Rightarrow> u8 list option" where
  "hex_DecodeString [] = Some []"
| "hex_DecodeString [c] = None"
| "hex_DecodeString (p # q # cs) =
     (case fromHexChar p of
        None \<Rightarrow> None
      | Some a \<Rightarrow>
          (case fromHexChar q of
             None \<Rightarrow> None
           | Some b \<Rightarrow> map_option ((#) (push_bit 4 a OR b)) (hex_DecodeString cs)))"

definition deserializeByteSequenceModel :: "SerializedSequenceModel \<Rightarrow> SequenceModel option" where
  "deserializeByteSequenceModel model =
     (case hex_DecodeString (ser_Sequence model) of
        None \<Rightarrow> None
      | Some s \<Rightarrow> Some \<lparr>seq_Index = ser_Index model, seq_Offset = ser_Offset model,
                          Sequence = s, seq_Length = ser_Length model\<rparr>)"

definition ByteSequenceShaper_ConfigureStruct ::
  "ByteSequenceShaper \<Rightarrow> SequenceConfig \<Rightarrow> error + ByteSequenceShaper" where
  "ByteSequenceShaper_ConfigureStruct shaper config =
     (let adds = map deserializeByteSequenceModel (cfg_AddSequences config);
          rems = map deserializeByteSequenceModel (cfg_RemoveSequences config)
      in case adds of
           [] \<Rightarrow> Inl IndexOutOfRange
         | None # others \<Rightarrow> Inl NilDereference
         | Some firstModel # others \<Rightarrow>
             (case last adds of
                None \<Rightarrow> Inl NilDereference
              | Some lastModel \<Rightarrow>
                  Inr (shaper\<lparr>AddSequences := adds, RemoveSequences := rems,
                              FirstIndex := seq_Index firstModel,
                              LastIndex := seq_Index lastModel\<rparr>)))"

definition OutputAndIncrement ::
  "ByteSequenceShaper \<Rightarrow> u8 list list \<Rightarrow> u8 list \<Rightarrow> u8 list list \<times> ByteSequenceShaper" where
  "OutputAndIncrement shaper results result =
     (results @ [result], shaper\<lparr>OutputIndex := OutputIndex shaper + 1\<rparr>)"

fun findNextPacket_range :: "SequenceModel option list \<Rightarrow> i8 \<Rightarrow> error + SequenceModel option" where
  "findNextPacket_range [] index = Inr None"
| "findNextPacket_range (None # others) index = Inl NilDereference"
| "findNextPacket_range (Some s # others) index =
     (if index = seq_Index s then Inr (Some s) else findNextPacket_range others index)"

definition findNextPacket :: "ByteSequenceShaper \<Rightarrow> i8 \<Rightarrow> error + SequenceModel option" where
  "findNextPacket shaper index = findNextPacket_range (AddSequences shaper) index"

text \<open>\<open>makePacket\<close>: \<open>make([]byte, length)\<close> panics on a negative length.\<close>

definition makePacket :: "SequenceModel \<Rightarrow> rand \<Rightarrow> error + u8 list \<times> rand" where
  "makePacket model r =
     (case (if sint (seq_Offset model) > 0 then rand_Read (nat (sint (seq_Offset model))) r
            else ([], r)) of
        (before, r1) \<Rightarrow>
          if sint (seq_Offset model) < sint (seq_Length model)
          then
            let len = sint (seq_Length model) -
                      (sint (seq_Offset model) + int (length (Sequence model)))
            in if len < 0 then Inl NegativeLength
               else (case rand_Read (nat len) r1 of
                       (after, r2) \<Rightarrow> Inr ((before @ Sequence model) @ after, r2))
          else Inr (before @ Sequence model, r1))"

text \<open>
  \<open>Inject\<close>: \<open>for nextPacket != nil { ... }\<close>. The index wraps around in \<open>int8\<close>, so
  the loop does not end when every index has a sequence.
\<close>

partial_function (option) Inject ::
  "ByteSequenceShaper \<Rightarrow> u8 list list \<Rightarrow> rand
     \<Rightarrow> (error + u8 list list \<times> ByteSequenceShaper \<times> rand) option" where
  "Inject shaper results r =
     (case findNextPacket shaper (OutputIndex shaper) of
        Inl e \<Rightarrow> Some (Inl e)
      | Inr None \<Rightarrow> Some (Inr (results, shaper, r))
      | Inr (Some nextPacket) \<Rightarrow>
          (case makePacket nextPacket r of
             Inl e \<Rightarrow> Some (Inl e)
           | Inr (packet, r1) \<Rightarrow>
               (case OutputAndIncrement shaper results packet of
                  (results1, shaper1) \<Rightarrow> Inject shaper1 results1 r1)))"

declare Inject.simps [code]

definition ByteSequenceShaper_Transform ::
  "ByteSequenceShaper \<Rightarrow> u8 list \<Rightarrow> rand
     \<Rightarrow> (error + u8 list list \<times> ByteSequenceShaper \<times> rand) option" where
  "ByteSequenceShaper_Transform shaper buffer r =
     (if sint (OutputIndex shaper) \<le> sint (LastIndex shaper)
      then
        (if sint (OutputIndex shaper) \<ge> sint (FirstIndex shaper)
         then
           (case Inject shaper [] r of
              None \<Rightarrow> None
            | Some (Inl e) \<Rightarrow> Some (Inl e)
            | Some (Inr (results1, shaper1, r1)) \<Rightarrow>
                (case OutputAndIncrement shaper1 results1 buffer of
                   (results2, shaper2) \<Rightarrow> Inject shaper2 results2 r1))
         else
           (case OutputAndIncrement shaper [] buffer of
              (results1, shaper1) \<Rightarrow> Some (Inr (results1, shaper1, r))))
      else Some (Inr ([buffer], shaper, r)))"

text \<open>
  A byte slice that arrives from outside: its elements, and \<open>spare\<close>, the bytes of its
  backing array between its length and its capacity. They matter for a slice expression
  \<open>s[lo:hi]\<close> on a slice, which Go checks against the capacity: it panics unless
  \<open>0 \<le> lo \<le> hi \<le> cap(s)\<close>.
\<close>

record ByteSlice =
  elems :: "u8 list"
  spare :: "u8 list"

text \<open>
  The loop of \<open>findMatchingPacket\<close> at position \<open>i\<close> of the list that \<open>range\<close> has
  read, with the models from \<open>i\<close> on.
\<close>

fun findMatchingPacket_range ::
  "ByteSequenceShaper \<Rightarrow> ByteSlice \<Rightarrow> nat \<Rightarrow> SequenceModel option list
     \<Rightarrow> error + SequenceModel option \<times> ByteSequenceShaper" where
  "findMatchingPacket_range shaper s i [] = Inr (None, shaper)"
| "findMatchingPacket_range shaper s i (None # others) = Inl NilDereference"
| "findMatchingPacket_range shaper s i (Some model # others) =
     (let target = Sequence model;
          lo = sint (seq_Offset model);
          hi = lo + int (length target)
      in if lo < 0 \<or> int (length (elems s) + length (spare s)) < hi then Inl SliceOutOfRange
         else
           let source = take (length target) (drop (nat lo) (elems s @ spare s)) in
           if source = target
           then Inr (Some model,
                     shaper\<lparr>RemoveSequences :=
                       take i (RemoveSequences shaper) @ drop (i + 1) (RemoveSequences shaper)\<rparr>)
           else findMatchingPacket_range shaper s (i + 1) others)"

definition findMatchingPacket ::
  "ByteSequenceShaper \<Rightarrow> ByteSlice \<Rightarrow> error + SequenceModel option \<times> ByteSequenceShaper" where
  "findMatchingPacket shaper s = findMatchingPacket_range shaper s 0 (RemoveSequences shaper)"

definition ByteSequenceShaper_Restore ::
  "ByteSequenceShaper \<Rightarrow> ByteSlice \<Rightarrow> error + ByteSlice list \<times> ByteSequenceShaper" where
  "ByteSequenceShaper_Restore shaper buffer =
     (case findMatchingPacket shaper buffer of
        Inl e \<Rightarrow> Inl e
      | Inr (Some match, shaper1) \<Rightarrow> Inr ([], shaper1)
      | Inr (None, shaper1) \<Rightarrow> Inr ([buffer], shaper1))"

text \<open>
  The configuration of the example: one sequence, the bytes of "SIG" in hex, at index 2
  and offset 0, in a packet of length 4, both to add and to remove.
\<close>

definition SIG_model :: SerializedSequenceModel where
  "SIG_model = \<lparr>ser_Index = 2, ser_Offset = 0, ser_Sequence = ''534947'', ser_Length = 4\<rparr>"

definition SIG_config :: SequenceConfig where
  "SIG_config = \<lparr>cfg_AddSequences = [SIG_model], cfg_RemoveSequences = [SIG_model]\<rparr>"

section \<open>Theorems: the range coder\<close>

text \<open>
  C1. The claim: with the table of 256 ones, \<open>Decode\<close> of hex CA0001020300000008 returns
  hex 00010203. The code does not return these bytes: \<open>decodeShort\<close> reads the last two
  bytes 00 08 with the low byte first, as 0x0800 = 2048, so \<open>size\<close> is 2044 and the copy
  loop indexes the nine bytes of the input at 9, where Go panics.
\<close>

theorem Decode_reference_vector_panics:
  "NewDecoder_Decode sampleFrequencies [0xCA, 0x00, 0x01, 0x02, 0x03, 0x00, 0x00, 0x00, 0x08]
     = Some (Inl IndexOutOfRange)"
  by code_simp

text \<open>
  With the length written the way \<open>decodeShort\<close> reads it, 08 00, the call returns,
  with two bytes: the first symbol is decoded after the three bytes that follow the header
  have been read, and \<open>flush\<close> decodes the second.
\<close>

lemma Decode_low_byte_first_trailer:
  "NewDecoder_Decode sampleFrequencies [0xCA, 0x00, 0x01, 0x02, 0x03, 0x00, 0x00, 0x08, 0x00]
     = Some (Inr [0x00, 0x01])"
  by code_simp

text \<open>
  C2. With the table of 256 ones, \<open>Encode\<close> of hex 00010203 returns
  hex CA0001020300000008.
\<close>

theorem Encode_reference_vector:
  "NewEncoder_Encode sampleFrequencies [0x00, 0x01, 0x02, 0x03]
     = Some (Inr [0xCA, 0x00, 0x01, 0x02, 0x03, 0x00, 0x00, 0x00, 0x08])"
  by code_simp

section \<open>Theorems: fragmentation\<close>

lemma unat_of_nat_u16: "n < 65536 \<Longrightarrow> unat (of_nat n :: u16) = n"
  by (simp add: unat_of_nat)

lemma fillSize_bounds: "0 < fillSize b \<and> fillSize b \<le> 16"
  unfolding fillSize_def CHUNK_SIZE_def
  using pos_mod_bound [of 16 "payloadSize b"] pos_mod_sign [of 16 "payloadSize b"]
  by simp

lemma packetSize_dvd: "16 dvd packetSize b"
  unfolding packetSize_def fillSize_def CHUNK_SIZE_def
  by simp presburger

text \<open>
  C5. For every payload \<open>b\<close> with \<open>|b| + 36 + 16 \<le> 1440 - 16\<close> and the maximum length
  1440 of the sample configuration, \<open>Transform\<close> produces exactly one fragment, with index
  0, count 1 and length \<open>|b|\<close>, and the size of the encoded fragment,
  \<open>2 + 32 + 1 + 1 + |b| + |padding|\<close>, is a multiple of 16. This holds for every stream
  of random bytes.
\<close>

theorem single_fragment:
  assumes small: "length b + 36 + 16 \<le> 1440 - 16"
  shows "\<exists>fragment r'.
           makeFragments (maxLength (FragmentationShaper_ConfigureStruct sampleFragmentationConfig)) b r
             = Inr ([fragment], r') \<and>
           FragmentationShaper_Transform
             (FragmentationShaper_ConfigureStruct sampleFragmentationConfig) b r
             = Inr ([encodeFragment fragment], r') \<and>
           Index fragment = 0 \<and> Count fragment = 1 \<and> unat (Length fragment) = length b \<and>
           Payload fragment = b \<and>
           length (encodeFragment fragment) = 2 + 32 + 1 + 1 + length b + length (Padding fragment) \<and>
           16 dvd length (encodeFragment fragment)"
proof -
  let ?shaper = "FragmentationShaper_ConfigureStruct sampleFragmentationConfig"
  have max: "maxLength ?shaper = 1440"
    by (simp add: FragmentationShaper_ConfigureStruct_def sampleFragmentationConfig_def)
  have fill: "0 < fillSize b" "fillSize b \<le> 16"
    using fillSize_bounds [of b] by simp_all
  have ps: "packetSize b = int (length b) + 52 + fillSize b"
    by (simp add: packetSize_def payloadSize_def HEADER_SIZE_def IV_SIZE_def)
  from small fill have fits: "packetSize b \<le> uint (1440 :: u16)"
    by (simp add: ps)
  obtain fl r1 where fl: "rand_Read (nat (fillSize b)) r = (fl, r1)"
    by (cases "rand_Read (nat (fillSize b)) r")
  obtain ident r2 where ident: "makeRandomId r1 = (ident, r2)"
    by (cases "makeRandomId r1")
  let ?f = "\<lparr>Length = of_nat (length b), FragmentId = ident, Index = 0, Count = 1,
             Payload = b, Padding = fl\<rparr>"
  have one: "oneFragment b r = ([?f], r2)"
    using fill fl ident by (simp add: oneFragment_def)
  have mk: "makeFragments 1440 b r = Inr ([?f], r2)"
    using fits one by (subst makeFragments.simps) simp
  have lfl: "length fl = nat (fillSize b)"
    using fl by (auto simp: rand_Read_def)
  have lid: "length ident = 32"
    using ident by (auto simp: makeRandomId_def rand_Read_def)
  have len: "length (encodeFragment ?f) = 2 + 32 + 1 + 1 + length b + length fl"
    by (simp add: encodeFragment_def encodeShort_def encodeByte_def lid)
  have "int (length (encodeFragment ?f)) = packetSize b - 16"
    using fill by (simp add: len lfl ps)
  moreover have "(16::int) dvd packetSize b - 16"
    using packetSize_dvd [of b] by presburger
  ultimately have "(16::int) dvd int (length (encodeFragment ?f))"
    by simp
  then have dvd: "16 dvd length (encodeFragment ?f)"
    by presburger
  have ulen: "unat (of_nat (length b) :: u16) = length b"
    using small by (simp add: unat_of_nat_u16)
  have tr: "FragmentationShaper_Transform ?shaper b r = Inr ([encodeFragment ?f], r2)"
    by (simp add: FragmentationShaper_Transform_def max mk)
  from dvd have dvd': "16 dvd 2 + 32 + 1 + 1 + length b + length fl"
    by (simp only: len)
  show ?thesis
    apply (rule exI [of _ ?f], rule exI [of _ r2])
    apply (simp only: max mk tr len)
    using dvd' apply (simp add: ulen)
    done
qed

theorem single_fragment_witness:
  "length [1, 2, 3 :: u8] + 36 + 16 \<le> 1440 - 16 \<and>
   (\<exists>fragment r'.
      makeFragments (maxLength (FragmentationShaper_ConfigureStruct sampleFragmentationConfig))
        [1, 2, 3] zero_rand = Inr ([fragment], r') \<and>
      Index fragment = 0 \<and> Count fragment = 1 \<and> unat (Length fragment) = 3 \<and>
      16 dvd length (encodeFragment fragment))"
  using single_fragment [of "[1, 2, 3]" zero_rand] by auto

text \<open>
  A buffer of 2752 equal bytes with the maximum length 1440: \<open>makeFragments\<close> takes the
  branch for several fragments, with \<open>firstLength = 1376\<close>, and returns.
\<close>

lemma periodic_buffer_is_split: "uint (1440 :: u16) < packetSize (replicate 2752 0x07)"
  by (simp add: packetSize_def payloadSize_def fillSize_def HEADER_SIZE_def IV_SIZE_def CHUNK_SIZE_def)

lemma periodic_buffer_returns: "\<exists>fragmentList r'. makeFragments 1440 (replicate 2752 0x07) zero_rand = Inr (fragmentList, r')"
proof -
  have fl: "firstLength 1440 (replicate 2752 0x07) = 1376"
    by (simp add: firstLength_def payloadSize_def fillSize_def HEADER_SIZE_def IV_SIZE_def CHUNK_SIZE_def)
  have leaf: "makeFragments 1440 (replicate 1376 0x07) r = Inr (oneFragment (replicate 1376 0x07) r)" for r
    by (subst makeFragments.simps)
     (simp add: packetSize_def payloadSize_def fillSize_def HEADER_SIZE_def IV_SIZE_def CHUNK_SIZE_def)
  show ?thesis
    using periodic_buffer_is_split
    apply (subst makeFragments.simps)
    apply (simp add: fl leaf)
    apply (simp add: oneFragment_def makeRandomId_def fixFragments_def split: prod.splits)
    done
qed


text \<open>
  C3, as stated: whenever \<open>makeFragments\<close> takes the branch for several fragments, the
  concatenation of the payloads of the fragments does not equal the original buffer. This
  fails for the buffer of 2752 equal bytes: the two fragments carry the first 1376 bytes
  each, and the buffer is twice its first 1376 bytes.
\<close>

theorem makeFragments_concat_equals_buffer:
  "uint (1440 :: u16) < packetSize (replicate 2752 0x07) \<and>
   concat_payloads (makeFragments 1440 (replicate 2752 0x07) zero_rand)
     = Inr (replicate 2752 0x07)"
proof -
  have fl: "firstLength 1440 (replicate 2752 0x07) = 1376"
    by (simp add: firstLength_def payloadSize_def fillSize_def HEADER_SIZE_def IV_SIZE_def
          CHUNK_SIZE_def)
  have leaf: "makeFragments 1440 (replicate 1376 0x07) r
      = Inr (oneFragment (replicate 1376 0x07) r)" for r
    by (subst makeFragments.simps)
       (simp add: packetSize_def payloadSize_def fillSize_def HEADER_SIZE_def IV_SIZE_def
          CHUNK_SIZE_def)
  have "concat_payloads (makeFragments 1440 (replicate 2752 0x07) zero_rand)
      = Inr (replicate 2752 0x07)"
    using periodic_buffer_is_split
    apply (subst makeFragments.simps)
    apply (simp add: fl leaf)
    apply (simp add: oneFragment_def makeRandomId_def rand_Read_def fixFragments_def
        concat_payloads_def split: prod.splits)
    apply (simp add: replicate_add [symmetric])
    done
  with periodic_buffer_is_split show ?thesis
    by simp
qed

lemma fixFragments_payloads:
  assumes "fixFragments fl = Inr fs"
  shows "map Payload fs = map Payload fl"
proof -
  have "map Payload (map (\<lambda>(index, fragment). fragment\<lparr>FragmentId := i, Index := of_nat index,
            Count := c\<rparr>) (enumerate n xs)) = map Payload xs" for i c n and xs :: "Fragment list"
    by (induction xs arbitrary: n) simp_all
  with assms show ?thesis
    by (auto simp: fixFragments_def split: list.splits)
qed

lemma oneFragment_payload:
  "oneFragment b r = (fs, r') \<Longrightarrow> map Payload fs = [b]"
  by (auto simp: oneFragment_def split: prod.splits if_splits)

lemma makeFragments_payloads:
  "makeFragments maxLen buffer r = Inr (fs, r') \<Longrightarrow>
     \<exists>k. 0 < k \<and> map Payload fs = replicate k (common_payload maxLen buffer)"
proof (induction maxLen buffer r arbitrary: fs r' rule: makeFragments.induct)
  case (1 maxLen buffer r)
  show ?case
  proof (cases "packetSize buffer \<le> uint maxLen")
    case True
    with "1.prems" have "oneFragment buffer r = (fs, r')"
      by (subst (asm) makeFragments.simps) simp
    then have "map Payload fs = [buffer]"
      by (rule oneFragment_payload)
    moreover from True have "common_payload maxLen buffer = buffer"
      by (subst common_payload.simps) simp
    ultimately have "map Payload fs = replicate 1 (common_payload maxLen buffer)"
      by simp
    then show ?thesis
      by (intro exI [of _ 1]) simp
  next
    case False
    let ?pre = "take (nat (firstLength maxLen buffer)) buffer"
    from False "1.prems" have nn: "\<not> firstLength maxLen buffer < 0"
      by (subst (asm) makeFragments.simps) (auto split: if_splits)
    from False nn "1.prems" obtain first r1 rest where
      first: "makeFragments maxLen ?pre r = Inr (first, r1)" and
      rest: "makeFragments maxLen ?pre r1 = Inr (rest, r')" and
      fixed: "fixFragments (first @ rest) = Inr fs"
      by (subst (asm) makeFragments.simps) (auto split: sum.splits prod.splits)
    from "1.IH" (1) [OF False nn first] obtain k1 where
      k1: "0 < k1" "map Payload first = replicate k1 (common_payload maxLen ?pre)"
      by blast
    from "1.IH" (2) [OF False nn first refl rest] obtain k2 where
      k2: "0 < k2" "map Payload rest = replicate k2 (common_payload maxLen ?pre)"
      by blast
    from False nn have cp: "common_payload maxLen buffer = common_payload maxLen ?pre"
      by (subst common_payload.simps) simp
    have "map Payload fs = map Payload (first @ rest)"
      using fixed by (rule fixFragments_payloads)
    also have "\<dots> = replicate (k1 + k2) (common_payload maxLen buffer)"
      by (simp add: k1 k2 cp replicate_add)
    finally show ?thesis
      using k1 by (intro exI [of _ "k1 + k2"]) simp
  qed
qed

lemma common_payload_prefix:
  "\<exists>L. L \<le> length buffer \<and> common_payload maxLen buffer = take L buffer"
proof (induction maxLen buffer rule: common_payload.induct)
  case (1 maxLen buffer)
  show ?case
  proof (cases "packetSize buffer \<le> uint maxLen \<or> firstLength maxLen buffer < 0")
    case True
    then have "common_payload maxLen buffer = take (length buffer) buffer"
      by (subst common_payload.simps) simp
    then show ?thesis
      by blast
  next
    case False
    let ?n = "nat (firstLength maxLen buffer)"
    from "1.IH" [OF False] obtain L where
      L: "L \<le> length (take ?n buffer)" "common_payload maxLen (take ?n buffer) = take L (take ?n buffer)"
      by blast
    from False have "common_payload maxLen buffer = common_payload maxLen (take ?n buffer)"
      by (subst common_payload.simps) simp
    moreover from L have "L \<le> ?n" and "L \<le> length buffer"
      by simp_all
    moreover from this have "take L (take ?n buffer) = take L buffer"
      by (simp add: min_absorb1)
    ultimately have "L \<le> length buffer \<and> common_payload maxLen buffer = take L buffer"
      using L by simp
    then show ?thesis
      by blast
  qed
qed

lemma firstLength_less:
  assumes "uint maxLen < packetSize buffer" "\<not> firstLength maxLen buffer < 0"
  shows "nat (firstLength maxLen buffer) < length buffer"
  using assms by (simp add: packetSize_def firstLength_def payloadSize_def)


text \<open>
  C3, amended. Whenever \<open>makeFragments\<close> takes the branch for several fragments and
  returns, both recursive calls are on the slice \<open>buffer[:firstLength]\<close>, and the
  fragments, two at least, all carry one and the same payload, a prefix of the buffer of at
  most \<open>firstLength\<close> bytes and shorter than the buffer. So the concatenation of the
  payloads is that prefix repeated once per fragment.
\<close>

theorem makeFragments_repeats_one_prefix:
  assumes multi: "uint maxLen < packetSize buffer"
    and ret: "makeFragments maxLen buffer r = Inr (fragmentList, r')"
  shows "\<exists>first rest r1 L.
           makeFragments maxLen (take (nat (firstLength maxLen buffer)) buffer) r = Inr (first, r1) \<and>
           makeFragments maxLen (take (nat (firstLength maxLen buffer)) buffer) r1 = Inr (rest, r') \<and>
           fixFragments (first @ rest) = Inr fragmentList \<and>
           L \<le> nat (firstLength maxLen buffer) \<and> L < length buffer \<and>
           2 \<le> length fragmentList \<and>
           (\<forall>fragment \<in> set fragmentList. Payload fragment = take L buffer) \<and>
           concat (map Payload fragmentList) =
             concat (replicate (length fragmentList) (take L buffer))"
proof -
  let ?n = "nat (firstLength maxLen buffer)"
  let ?pre = "take ?n buffer"
  from multi have False: "\<not> packetSize buffer \<le> uint maxLen"
    by simp
  from False ret have nn: "\<not> firstLength maxLen buffer < 0"
    by (subst (asm) makeFragments.simps) (auto split: if_splits)
  from False nn ret obtain first r1 rest where
    first: "makeFragments maxLen ?pre r = Inr (first, r1)" and
    rest: "makeFragments maxLen ?pre r1 = Inr (rest, r')" and
    fixed: "fixFragments (first @ rest) = Inr fragmentList"
    by (subst (asm) makeFragments.simps) (auto split: sum.splits prod.splits)
  from makeFragments_payloads [OF first] obtain k1 where
    k1: "0 < k1" "map Payload first = replicate k1 (common_payload maxLen ?pre)"
    by blast
  from makeFragments_payloads [OF rest] obtain k2 where
    k2: "0 < k2" "map Payload rest = replicate k2 (common_payload maxLen ?pre)"
    by blast
  from common_payload_prefix [of ?pre maxLen] obtain L where
    L: "L \<le> length ?pre" "common_payload maxLen ?pre = take L ?pre"
    by blast
  have less: "?n < length buffer"
    using multi nn by (rule firstLength_less)
  with L have Ln: "L \<le> ?n" and Lb: "L < length buffer"
    by simp_all
  from L Ln have cp: "common_payload maxLen ?pre = take L buffer"
    by (simp add: min_absorb1)
  have "map Payload fragmentList = map Payload (first @ rest)"
    using fixed by (rule fixFragments_payloads)
  then have pl: "map Payload fragmentList = replicate (k1 + k2) (take L buffer)"
    by (simp add: k1 k2 cp replicate_add)
  then have "length (map Payload fragmentList) = k1 + k2"
    by simp
  then have len: "length fragmentList = k1 + k2"
    by simp
  with k1 k2 have two: "2 \<le> length fragmentList"
    by simp
  have all: "\<forall>fragment \<in> set fragmentList. Payload fragment = take L buffer"
  proof
    fix fragment
    assume "fragment \<in> set fragmentList"
    then have "Payload fragment \<in> set (map Payload fragmentList)"
      by simp
    then show "Payload fragment = take L buffer"
      by (simp add: pl)
  qed
  have cc: "concat (map Payload fragmentList) =
      concat (replicate (length fragmentList) (take L buffer))"
    by (simp add: pl len)
  from first rest fixed Ln Lb two all cc show ?thesis
    by blast
qed


theorem makeFragments_repeats_one_prefix_witness:
  "uint (1440 :: u16) < packetSize (replicate 2752 0x07) \<and>
   (\<exists>fragmentList r' L.
      makeFragments 1440 (replicate 2752 0x07) zero_rand = Inr (fragmentList, r') \<and>
      L < 2752 \<and> 2 \<le> length fragmentList \<and>
      (\<forall>fragment \<in> set fragmentList. Payload fragment = replicate L 0x07))"
proof -
  from periodic_buffer_returns obtain fragmentList r' where
    ret: "makeFragments 1440 (replicate 2752 0x07) zero_rand = Inr (fragmentList, r')"
    by blast
  from makeFragments_repeats_one_prefix [OF periodic_buffer_is_split ret] obtain L where
    "L < 2752" "2 \<le> length fragmentList"
    "\<forall>fragment \<in> set fragmentList. Payload fragment = take L (replicate 2752 0x07)"
    by auto
  then have "L < 2752 \<and> 2 \<le> length fragmentList \<and>
      (\<forall>fragment \<in> set fragmentList. Payload fragment = replicate L 0x07)"
    by (simp add: min_def)
  with periodic_buffer_is_split ret show ?thesis
    by blast
qed

section \<open>Theorems: the defragmenter\<close>

text \<open>
  C6. The claim: \<open>GetComplete\<close> returns every completed datagram and empties the list,
  so that \<open>CompleteCount\<close> is 0 afterwards, also with two or more completed datagrams.
  The code does not: after two fragments of count 1 have been added to the zero-value
  defragmenter, \<open>GetComplete\<close> returns the second datagram only and one datagram stays
  in the list, because the loop reads \<open>len(this.complete)\<close> again after each removal.
\<close>

theorem GetComplete_leaves_one_of_two:
  "AddFragment \<lparr>tracker = None, complete = []\<rparr>
     \<lparr>Length = 1, FragmentId = replicate 32 0x01, Index = 0, Count = 1, Payload = [0xAA], Padding = []\<rparr>
     = Inr \<lparr>tracker = None, complete = [[Some [0xAA]]]\<rparr> \<and>
   AddFragment \<lparr>tracker = None, complete = [[Some [0xAA]]]\<rparr>
     \<lparr>Length = 1, FragmentId = replicate 32 0x02, Index = 0, Count = 1, Payload = [0xBB], Padding = []\<rparr>
     = Inr \<lparr>tracker = None, complete = [[Some [0xAA]], [Some [0xBB]]]\<rparr> \<and>
   GetComplete \<lparr>tracker = None, complete = [[Some [0xAA]], [Some [0xBB]]]\<rparr>
     = ([[0xBB]], \<lparr>tracker = None, complete = [[Some [0xAA]]]\<rparr>) \<and>
   CompleteCount (snd (GetComplete \<lparr>tracker = None, complete = [[Some [0xAA]], [Some [0xBB]]]\<rparr>)) = 1"
  by (simp add: AddFragment_def AddFragment_new_def GetComplete_def CompleteCount_def
        GetComplete_loop.simps)

text \<open>In general the loop leaves the first half of the list behind.\<close>

lemma GetComplete_loop_length:
  "length (snd (GetComplete_loop i cs packets)) =
     (if i < length cs then (length cs + i) div 2 else length cs)"
proof (induction i cs packets rule: GetComplete_loop.induct)
  case (1 i cs packets)
  show ?case
  proof (cases "i < length cs")
    case True
    with "1.IH" [OF True refl refl refl] show ?thesis
      by (subst GetComplete_loop.simps) (auto simp: Let_def)
  next
    case False
    then show ?thesis
      by (subst GetComplete_loop.simps) simp
  qed
qed

lemma CompleteCount_after_GetComplete:
  "CompleteCount (snd (GetComplete this)) = CompleteCount this div 2"
  using GetComplete_loop_length [of 0 "complete this" "[]"]
  by (cases "GetComplete_loop 0 (complete this) []")
     (auto simp: GetComplete_def CompleteCount_def)

text \<open>
  C7. The claim: the expiration timer armed for the first fragment of a new identifier with
  count at least 2 has a duration of 60 seconds. In the code the duration is
  \<open>time.Duration(60 * 1000)\<close>, that is 60000 nanoseconds or 60 microseconds, and not
  \<open>60 * time.Second\<close>.
\<close>

theorem expiration_timer_is_60_microseconds:
  "(case AddFragment \<lparr>tracker = Some Map.empty, complete = []\<rparr>
           \<lparr>Length = 1, FragmentId = replicate 32 0x01, Index = 0, Count = 2,
            Payload = [0xAA], Padding = []\<rparr> of
      Inl e \<Rightarrow> None
    | Inr this \<Rightarrow>
        (case tracker this of
           None \<Rightarrow> None
         | Some m \<Rightarrow> map_option (\<lambda>t. duration (Timer t))
                       (m (hex_EncodeToString (replicate 32 0x01)))))
     = Some 60000 \<and>
   CACHE_EXPIRATION_TIME = 60 * Microsecond \<and>
   60 * Second = 60000000000 \<and>
   CACHE_EXPIRATION_TIME \<noteq> 60 * Second"
  by (simp add: AddFragment_def AddFragment_new_def time_AfterFunc_def CACHE_EXPIRATION_TIME_def
        Second_def Millisecond_def Microsecond_def Nanosecond_def Let_def)

text \<open>
  C9, as stated: on the zero-value defragmenter every call of \<open>AddFragment\<close> with a count
  of at least 2 panics in the assignment to the nil map. This fails for a fragment with
  count 2 and index 2: the index expression on the fresh list of pieces panics first.
\<close>

theorem AddFragment_nil_tracker_counterexample:
  "2 \<le> unat (Count \<lparr>Length = 1, FragmentId = replicate 32 0x01, Index = 2, Count = 2,
                     Payload = [0xAA], Padding = []\<rparr>) \<and>
   AddFragment (fragmentBuffer (FragmentationShaper_ConfigureStruct sampleFragmentationConfig))
     \<lparr>Length = 1, FragmentId = replicate 32 0x01, Index = 2, Count = 2,
      Payload = [0xAA], Padding = []\<rparr> = Inl IndexOutOfRange \<and>
   AddFragment (fragmentBuffer (FragmentationShaper_ConfigureStruct sampleFragmentationConfig))
     \<lparr>Length = 1, FragmentId = replicate 32 0x01, Index = 2, Count = 2,
      Payload = [0xAA], Padding = []\<rparr> \<noteq> Inl NilMapAssignment"
  by (simp add: AddFragment_def AddFragment_new_def FragmentationShaper_ConfigureStruct_def)

lemma AddFragment_new_nil:
  assumes "tracker this = None"
  shows "AddFragment_new this hexid fragment =
     (if \<not> Index fragment < Count fragment then Inl IndexOutOfRange
      else if Count fragment = 1
           then Inr (this\<lparr>complete := complete this @ [[Some (Payload fragment)]]\<rparr>)
           else Inl NilMapAssignment)"
proof (cases "Index fragment < Count fragment")
  case False
  then show ?thesis
    by (simp add: AddFragment_new_def word_less_nat_alt)
next
  case True
  then have lt: "unat (Index fragment) < unat (Count fragment)"
    by (simp add: word_less_nat_alt)
  show ?thesis
  proof (cases "Count fragment = 1")
    case one: True
    with lt have "unat (Index fragment) = 0"
      by simp
    with one True show ?thesis
      by (simp add: AddFragment_new_def)
  next
    case notone: False
    then have "Count fragment - 1 \<noteq> 0"
      by simp
    with True lt assms show ?thesis
      by (simp add: AddFragment_new_def Let_def notone)
  qed
qed

text \<open>
  C9, amended. On a defragmenter whose tracker is the nil map, as in the zero value,
  \<open>AddFragment\<close> with a count of at least 2 always panics: in the assignment to the nil
  map when the index is below the count, and in the index expression before it otherwise.
  Whenever \<open>AddFragment\<close> returns, the count is 1, the fragment is appended to the
  completed list and the tracker is still nil.
\<close>

theorem AddFragment_nil_tracker:
  assumes nil: "tracker this = None"
  shows "(2 \<le> unat (Count fragment) \<longrightarrow>
            AddFragment this fragment =
              Inl (if Index fragment < Count fragment then NilMapAssignment else IndexOutOfRange)) \<and>
         (\<forall>this'. AddFragment this fragment = Inr this' \<longrightarrow>
            Count fragment = 1 \<and> Index fragment = 0 \<and> tracker this' = None \<and>
            complete this' = complete this @ [[Some (Payload fragment)]])"
proof -
  have eq: "AddFragment this fragment =
     (if \<not> Index fragment < Count fragment then Inl IndexOutOfRange
      else if Count fragment = 1
           then Inr (this\<lparr>complete := complete this @ [[Some (Payload fragment)]]\<rparr>)
           else Inl NilMapAssignment)"
    using nil AddFragment_new_nil [OF nil] by (simp add: AddFragment_def)
  have two: "2 \<le> unat (Count fragment) \<Longrightarrow> Count fragment \<noteq> 1"
    by auto
  have zero: "Index fragment < Count fragment \<Longrightarrow> Count fragment = 1 \<Longrightarrow> Index fragment = 0"
    by (simp add: word_less_nat_alt unat_eq_0 [symmetric] del: unat_eq_0)
  show ?thesis
    using two zero nil by (auto simp: eq split: if_splits)
qed

theorem AddFragment_nil_tracker_witness:
  "tracker (fragmentBuffer (FragmentationShaper_ConfigureStruct sampleFragmentationConfig)) = None \<and>
   AddFragment (fragmentBuffer (FragmentationShaper_ConfigureStruct sampleFragmentationConfig))
     \<lparr>Length = 1, FragmentId = replicate 32 0x01, Index = 0, Count = 2,
      Payload = [0xAA], Padding = []\<rparr> = Inl NilMapAssignment \<and>
   AddFragment (fragmentBuffer (FragmentationShaper_ConfigureStruct sampleFragmentationConfig))
     \<lparr>Length = 1, FragmentId = replicate 32 0x01, Index = 0, Count = 1,
      Payload = [0xAA], Padding = []\<rparr> = Inr \<lparr>tracker = None, complete = [[Some [0xAA]]]\<rparr>"
proof -
  let ?d = "fragmentBuffer (FragmentationShaper_ConfigureStruct sampleFragmentationConfig)"
  have nil: "tracker ?d = None"
    by (simp add: FragmentationShaper_ConfigureStruct_def)
  have d: "?d = \<lparr>tracker = None, complete = []\<rparr>"
    by (simp add: FragmentationShaper_ConfigureStruct_def)
  note t = AddFragment_nil_tracker [OF nil]
  have a: "AddFragment ?d \<lparr>Length = 1, FragmentId = replicate 32 0x01, Index = 0, Count = 2,
      Payload = [0xAA], Padding = []\<rparr> = Inl NilMapAssignment"
    using t [of "\<lparr>Length = 1, FragmentId = replicate 32 0x01, Index = 0, Count = 2,
      Payload = [0xAA], Padding = []\<rparr>"] by simp
  have b: "AddFragment ?d \<lparr>Length = 1, FragmentId = replicate 32 0x01, Index = 0, Count = 1,
      Payload = [0xAA], Padding = []\<rparr> = Inr \<lparr>tracker = None, complete = [[Some [0xAA]]]\<rparr>"
    by (simp add: AddFragment_def AddFragment_new_def d)
  from nil a b show ?thesis
    by simp
qed

section \<open>Theorems: the encryption shaper\<close>

lemma xor_bytes_length: "length (xor_bytes a b) = min (length a) (length b)"
  by (simp add: xor_bytes_def)

lemma xor_bytes_cancel: "length a = length b \<Longrightarrow> xor_bytes (xor_bytes a b) b = a"
  unfolding xor_bytes_def
  by (induction a b rule: list_induct2) (simp_all add: xor.assoc)

lemma chunk_length: "x < length buf div CHUNK_SIZE \<Longrightarrow> length (chunk x buf) = 16"
  unfolding chunk_def CHUNK_SIZE_def by simp

lemma decodeShort_encodeShort: "decodeShort (encodeShort v) = v"
  unfolding encodeShort_def
  by (simp, rule bit_word_eqI) (auto simp: bit_simps)

lemma encrypt_blocks_append:
  "block_ok block \<Longrightarrow> length iv = 16 \<Longrightarrow>
     \<exists>t. encrypt_blocks block iv plaintext x acc = acc @ t \<and>
         length t = 16 * (length plaintext div CHUNK_SIZE - x)"
proof (induction block iv plaintext x acc rule: encrypt_blocks.induct)
  case (1 block iv plaintext x ciphertext)
  show ?case
  proof (cases "x < length plaintext div CHUNK_SIZE")
    case False
    then show ?thesis
      by (subst encrypt_blocks.simps) simp
  next
    case True
    let ?c = "Encrypt block (xor_bytes (chunk x plaintext) iv)"
    have lx: "length (xor_bytes (chunk x plaintext) iv) = 16"
      using True "1.prems" by (simp add: xor_bytes_length chunk_length)
    with "1.prems" have lc: "length ?c = 16"
      by (simp add: block_ok_def)
    from "1.IH" [OF True "1.prems"(1) lc] obtain t where
      t: "encrypt_blocks block ?c plaintext (x + 1) (ciphertext @ ?c) = (ciphertext @ ?c) @ t"
         "length t = 16 * (length plaintext div CHUNK_SIZE - (x + 1))"
      by blast
    have "encrypt_blocks block iv plaintext x ciphertext = ciphertext @ (?c @ t)"
      using True t by (subst encrypt_blocks.simps) simp
    moreover have "length (?c @ t) = 16 * (length plaintext div CHUNK_SIZE - x)"
      using True t lc by simp
    ultimately show ?thesis
      by blast
  qed
qed

lemma cbc_roundtrip:
  "block_ok block \<Longrightarrow> length iv = 16 \<Longrightarrow> length acc = 16 * x \<Longrightarrow>
   x \<le> length plaintext div CHUNK_SIZE \<Longrightarrow>
     decrypt_blocks block iv (encrypt_blocks block iv plaintext x acc) x accp
       = accp @ drop (16 * x) (take (16 * (length plaintext div CHUNK_SIZE)) plaintext)"
proof (induction block iv plaintext x acc arbitrary: accp rule: encrypt_blocks.induct)
  case (1 block iv plaintext x ciphertext)
  let ?n = "length plaintext div CHUNK_SIZE"
  have n16: "16 * ?n \<le> length plaintext"
    by (simp add: CHUNK_SIZE_def)
  show ?case
  proof (cases "x < ?n")
    case False
    with "1.prems" have xn: "x = ?n"
      by simp
    have e: "encrypt_blocks block iv plaintext x ciphertext = ciphertext"
      using False by (subst encrypt_blocks.simps) simp
    have "length ciphertext div CHUNK_SIZE = x"
      using "1.prems" by (simp add: CHUNK_SIZE_def)
    then have "decrypt_blocks block iv ciphertext x accp = accp"
      by (subst decrypt_blocks.simps) simp
    with e xn n16 show ?thesis
      by simp
  next
    case True
    let ?p = "chunk x plaintext"
    let ?c = "Encrypt block (xor_bytes ?p iv)"
    have lp: "length ?p = 16"
      using True by (rule chunk_length)
    have lx: "length (xor_bytes ?p iv) = 16"
      using lp "1.prems" by (simp add: xor_bytes_length)
    with "1.prems" have lc: "length ?c = 16" and dc: "Decrypt block ?c = xor_bytes ?p iv"
      by (simp_all add: block_ok_def)
    let ?C = "encrypt_blocks block ?c plaintext (x + 1) (ciphertext @ ?c)"
    have e: "encrypt_blocks block iv plaintext x ciphertext = ?C"
      using True by (subst encrypt_blocks.simps) simp
    from encrypt_blocks_append [OF "1.prems"(1) lc, of plaintext "x + 1" "ciphertext @ ?c"]
    obtain t where t: "?C = (ciphertext @ ?c) @ t" "length t = 16 * (?n - (x + 1))"
      by blast
    have lC: "length ?C = 16 * ?n"
      using t True lc "1.prems" by simp
    then have xC: "x < length ?C div CHUNK_SIZE"
      using True by (simp add: CHUNK_SIZE_def)
    have cx: "chunk x ?C = ?c"
      using t lc "1.prems" by (simp add: chunk_def CHUNK_SIZE_def)
    have px: "xor_bytes (Decrypt block ?c) iv = ?p"
      using lp "1.prems" by (simp add: dc xor_bytes_cancel)
    have lacc: "length (ciphertext @ ?c) = 16 * (x + 1)"
      using lc "1.prems" by simp
    have sx: "x + 1 \<le> ?n"
      using True by simp
    have "decrypt_blocks block iv ?C x accp =
        decrypt_blocks block (chunk x ?C) ?C (x + 1)
          (accp @ xor_bytes (Decrypt block (chunk x ?C)) iv)"
      using xC by (subst decrypt_blocks.simps) (simp only: if_True)
    then have "decrypt_blocks block iv ?C x accp = decrypt_blocks block ?c ?C (x + 1) (accp @ ?p)"
      by (simp only: cx px)
    also have "\<dots> = (accp @ ?p) @ drop (16 * (x + 1)) (take (16 * ?n) plaintext)"
      by (rule "1.IH" [OF True "1.prems"(1) lc lacc sx])
    also have "\<dots> = accp @ drop (16 * x) (take (16 * ?n) plaintext)"
    proof -
      let ?ys = "drop (16 * x) (take (16 * ?n) plaintext)"
      have "16 * x + 16 \<le> 16 * ?n"
        using True by simp
      then have "?p = take 16 ?ys"
        by (simp add: chunk_def CHUNK_SIZE_def take_drop min_absorb1 mult.commute)
      moreover have "drop (16 * (x + 1)) (take (16 * ?n) plaintext) = drop 16 ?ys"
        by (simp add: add.commute)
      ultimately have "?p @ drop (16 * (x + 1)) (take (16 * ?n) plaintext) = ?ys"
        by (simp only: append_take_drop_id)
      then show ?thesis
        by simp
    qed
    finally show ?thesis
      by (simp only: e)
  qed
qed


lemma xor_cipher_ok: "length k = 16 \<Longrightarrow> block_ok (xor_cipher k)"
  by (simp add: block_ok_def xor_cipher_def xor_bytes_length xor_bytes_cancel)

text \<open>
  C4. For every key of 16 bytes, every payload \<open>b\<close> that is not empty and has at most
  65535 bytes, and every choice of the random bytes (the initialisation vector and the
  padding come from the stream \<open>r\<close>), \<open>Transform\<close> gives exactly one datagram, of
  length 16 plus a positive multiple of 16, and \<open>Restore\<close> of that datagram gives
  exactly \<open>[b]\<close>. The block cipher is any one that meets \<open>block_ok\<close>.
\<close>

theorem EncryptionShaper_roundtrip:
  assumes klen: "length (key shaper) = 16"
    and aes: "block_ok (aes (key shaper))"
    and ne: "b \<noteq> []"
    and len: "length b \<le> 65535"
  shows "\<exists>datagram r' k.
           EncryptionShaper_Transform aes shaper b r = Inr ([datagram], r') \<and>
           0 < k \<and> length datagram = 16 + 16 * k \<and>
           EncryptionShaper_Restore aes shaper datagram = Inr [b]"
proof -
  let ?block = "aes (key shaper)"
  let ?l = "encodeShort (of_nat (length b))"
  let ?rem = "(2 + length b) mod 16"
  obtain iv r1 where iv: "makeIV r = (iv, r1)"
    by (cases "makeIV r")
  then have liv: "length iv = 16"
    by (auto simp: makeIV_def rand_Read_def IV_SIZE_def)
  have ll: "length ?l = 2"
    by (simp add: encodeShort_def)
  define pad where "pad = (if ?rem = 0 then [] else fst (rand_Read (16 - ?rem) r1))"
  define r2 where "r2 = (if ?rem = 0 then r1 else snd (rand_Read (16 - ?rem) r1))"
  let ?P = "?l @ b @ pad"
  have lpad: "length pad = (if ?rem = 0 then 0 else 16 - ?rem)"
    by (simp add: pad_def rand_Read_def)
  have lP: "length ?P = 2 + length b + length pad"
    by (simp add: ll)
  have "(2 + length b + length pad) mod 16 = 0"
    unfolding lpad by presburger
  then have Pmod: "length ?P mod 16 = 0"
    by (simp only: lP)
  define n where "n = length ?P div 16"
  from Pmod have Pn: "length ?P = 16 * n"
    unfolding n_def by presburger
  have "0 < length ?P"
    by (simp add: ll)
  with Pn have npos: "0 < n"
    by simp
  have cipher: "aes_NewCipher aes (key shaper) = Some ?block"
    by (simp add: aes_NewCipher_def klen)
  let ?C = "encrypt_blocks ?block iv ?P 0 []"
  have enc: "encrypt aes (key shaper) iv b r1 = Inr (?C, r2)"
    by (simp add: encrypt_def Let_def ll CHUNK_SIZE_def cipher liv aes_BlockSize_def pad_def
          r2_def split: prod.splits)
  have tr: "EncryptionShaper_Transform aes shaper b r = Inr ([iv @ ?C], r2)"
    by (simp add: EncryptionShaper_Transform_def iv enc)
  from encrypt_blocks_append [OF aes liv, of ?P 0 "[]"] obtain t where
    "?C = [] @ t" "length t = 16 * (length ?P div CHUNK_SIZE - 0)"
    by blast
  then have lC: "length ?C = 16 * n"
    by (simp add: n_def CHUNK_SIZE_def)
  have ld: "length (iv @ ?C) = 16 + 16 * n"
    by (simp add: liv lC)
  have "decrypt_blocks ?block iv ?C 0 [] =
      [] @ drop (16 * 0) (take (16 * (length ?P div CHUNK_SIZE)) ?P)"
    by (rule cbc_roundtrip [OF aes liv]) simp_all
  then have dec: "decrypt_blocks ?block iv ?C 0 [] = ?P"
    using Pn by (simp add: CHUNK_SIZE_def)
  have ulen: "unat (of_nat (length b) :: u16) = length b"
    using len by (simp add: unat_of_nat)
  have t2: "take 2 ?P = ?l" and d2: "drop 2 ?P = b @ pad"
    by (simp_all add: ll)
  have "decrypt aes (key shaper) iv ?C = Inr b"
    by (simp add: decrypt_def cipher liv aes_BlockSize_def dec Let_def t2 d2
          decodeShort_encodeShort ulen ll del: append_assoc append.simps)
  then have rs: "EncryptionShaper_Restore aes shaper (iv @ ?C) = Inr [b]"
    by (simp add: EncryptionShaper_Restore_def IV_SIZE_def liv)
  from tr npos ld rs show ?thesis
    by blast
qed

theorem EncryptionShaper_roundtrip_witness:
  "length (key \<lparr>key = replicate 16 0x5A\<rparr>) = 16 \<and>
   block_ok (xor_cipher (key \<lparr>key = replicate 16 0x5A\<rparr>)) \<and>
   [0x01, 0x02, 0x03 :: u8] \<noteq> [] \<and> length [0x01, 0x02, 0x03 :: u8] \<le> 65535 \<and>
   (\<exists>datagram r' k.
      EncryptionShaper_Transform xor_cipher \<lparr>key = replicate 16 0x5A\<rparr> [0x01, 0x02, 0x03] zero_rand
        = Inr ([datagram], r') \<and>
      0 < k \<and> length datagram = 16 + 16 * k \<and>
      EncryptionShaper_Restore xor_cipher \<lparr>key = replicate 16 0x5A\<rparr> datagram
        = Inr [[0x01, 0x02, 0x03]])"
proof -
  have k: "length (key \<lparr>key = replicate 16 0x5A\<rparr>) = 16"
    by simp
  have ok: "block_ok (xor_cipher (key \<lparr>key = replicate 16 0x5A\<rparr>))"
    by (rule xor_cipher_ok) simp
  have ne: "[0x01, 0x02, 0x03 :: u8] \<noteq> []" and le: "length [0x01, 0x02, 0x03 :: u8] \<le> 65535"
    by simp_all
  from EncryptionShaper_roundtrip
         [of "\<lparr>key = replicate 16 0x5A\<rparr>" xor_cipher "[0x01, 0x02, 0x03]" zero_rand,
          OF k ok ne le] k ok ne le
  show ?thesis
    by blast
qed

section \<open>Theorems: the byte sequence shaper\<close>

lemma SIG_hex: "hex_DecodeString ''534947'' = Some [0x53, 0x49, 0x47]"
  by code_simp

lemma SIG_configured:
  "ByteSequenceShaper_ConfigureStruct ByteSequenceShaper_zero SIG_config =
     Inr \<lparr>AddSequences = [Some \<lparr>seq_Index = 2, seq_Offset = 0, Sequence = [0x53, 0x49, 0x47],
                                  seq_Length = 4\<rparr>],
          RemoveSequences = [Some \<lparr>seq_Index = 2, seq_Offset = 0, Sequence = [0x53, 0x49, 0x47],
                                     seq_Length = 4\<rparr>],
          FirstIndex = 2, LastIndex = 2, OutputIndex = 0\<rparr>"
  by code_simp

text \<open>
  C8. The shaper is configured, from the zero value, with the one sequence "SIG" at index
  2, offset 0 and length 4, to add and to remove. Three calls of \<open>Transform\<close>, on \<open>a\<close>,
  \<open>b\<close> and \<open>c\<close>, give \<open>[a]\<close>, then \<open>[b]\<close>, then \<open>[d, c]\<close>, where \<open>d\<close> is the
  four bytes "SIG" and one random byte, the next one of the random stream.
\<close>

theorem SIG_decoy_before_third_packet:
  "\<exists>s0 s1 s2 s3 r'.
     ByteSequenceShaper_ConfigureStruct ByteSequenceShaper_zero SIG_config = Inr s0 \<and>
     OutputIndex s0 = 0 \<and>
     ByteSequenceShaper_Transform s0 a r = Some (Inr ([a], s1, r)) \<and>
     ByteSequenceShaper_Transform s1 b r = Some (Inr ([b], s2, r)) \<and>
     ByteSequenceShaper_Transform s2 c r = Some (Inr ([[0x53, 0x49, 0x47, r 0], c], s3, r'))"
  apply (simp add: SIG_configured)
  apply (simp add: ByteSequenceShaper_Transform_def OutputAndIncrement_def Inject.simps
      findNextPacket_def makePacket_def rand_Read_def)
  done

text \<open>
  C10, as stated: with a list of sequences to remove that is not empty, \<open>Restore\<close> panics
  on every datagram shorter than \<open>Offset + |Sequence|\<close> of the first entry. This fails for
  a datagram of two bytes in a backing array of four: the slice expression
  \<open>sequence[0:3]\<close> is within the capacity, so it does not panic, the three bytes do not
  match "SIG", and the datagram is returned unchanged.
\<close>

theorem Restore_within_capacity_counterexample:
  "RemoveSequences \<lparr>AddSequences = [], 
      RemoveSequences = [Some \<lparr>seq_Index = 2, seq_Offset = 0, Sequence = [0x53, 0x49, 0x47], seq_Length = 4\<rparr>],
      FirstIndex = 2, LastIndex = 2, OutputIndex = 0\<rparr> \<noteq> [] \<and>
   int (length (elems \<lparr>elems = [0x01, 0x02], spare = [0x00, 0x00]\<rparr>)) < sint (0 :: i16) + int (length [0x53, 0x49, 0x47 :: u8]) \<and>
   ByteSequenceShaper_Restore
     \<lparr>AddSequences = [], 
      RemoveSequences = [Some \<lparr>seq_Index = 2, seq_Offset = 0, Sequence = [0x53, 0x49, 0x47], seq_Length = 4\<rparr>],
      FirstIndex = 2, LastIndex = 2, OutputIndex = 0\<rparr>
     \<lparr>elems = [0x01, 0x02], spare = [0x00, 0x00]\<rparr>
   = Inr ([\<lparr>elems = [0x01, 0x02], spare = [0x00, 0x00]\<rparr>],
       \<lparr>AddSequences = [], 
      RemoveSequences = [Some \<lparr>seq_Index = 2, seq_Offset = 0, Sequence = [0x53, 0x49, 0x47], seq_Length = 4\<rparr>],
      FirstIndex = 2, LastIndex = 2, OutputIndex = 0\<rparr>)"
  by (simp add: ByteSequenceShaper_Restore_def findMatchingPacket_def)

text \<open>
  C10, amended. When the list of sequences to remove starts with an entry and the capacity
  of the datagram, not only its length, is below \<open>Offset + |Sequence|\<close> of that entry,
  \<open>Restore\<close> panics in the slice expression instead of returning the datagram. A
  datagram without spare capacity that is shorter than \<open>Offset + |Sequence|\<close> is such a
  case.
\<close>

theorem Restore_panics_beyond_capacity:
  assumes first: "RemoveSequences shaper = Some model # others"
    and short: "int (length (elems buffer) + length (spare buffer))
                  < sint (seq_Offset model) + int (length (Sequence model))"
  shows "ByteSequenceShaper_Restore shaper buffer = Inl SliceOutOfRange"
  using first short
  by (simp add: ByteSequenceShaper_Restore_def findMatchingPacket_def Let_def)

theorem Restore_panics_beyond_capacity_witness:
  "(case ByteSequenceShaper_ConfigureStruct ByteSequenceShaper_zero SIG_config of
      Inl e \<Rightarrow> False
    | Inr s0 \<Rightarrow>
        RemoveSequences s0 = [Some \<lparr>seq_Index = 2, seq_Offset = 0, Sequence = [0x53, 0x49, 0x47],
                                     seq_Length = 4\<rparr>] \<and>
        ByteSequenceShaper_Restore s0 \<lparr>elems = [0x01, 0x02], spare = []\<rparr> = Inl SliceOutOfRange)"
proof -
  let ?m = "\<lparr>seq_Index = 2, seq_Offset = 0, Sequence = [0x53, 0x49, 0x47], seq_Length = 4\<rparr>"
  let ?s = "\<lparr>AddSequences = [Some ?m], RemoveSequences = [Some ?m],
             FirstIndex = 2, LastIndex = 2, OutputIndex = 0\<rparr>"
  have "ByteSequenceShaper_Restore ?s \<lparr>elems = [0x01, 0x02], spare = []\<rparr> = Inl SliceOutOfRange"
    by (rule Restore_panics_beyond_capacity [where model = ?m and others = "[]"]) simp_all
  then show ?thesis
    by (simp add: SIG_configured)
qed

end
